theory Spec2Isabelle
  imports Main "HOL-Library.Sublist"
begin

section \<open>JavaScript strings\<close>

text \<open>
  A JavaScript string is a sequence of UTF-16 code units; \<open>length\<close>, \<open>split\<close>,
  \<open>includes\<close> and the regular expressions of the source all work on code units.
  A code unit is a number below 65536; the source does no arithmetic on code units, so
  they are natural numbers here. The Chinese literals of the source are written as their
  code units.
\<close>

type_synonym jschar = nat
type_synonym jsstring = "jschar list"

definition js :: "string \<Rightarrow> jsstring" where
  "js s = map of_char s"

text \<open>
  \<open>String.prototype.trim\<close> removes WhiteSpace and LineTerminator code units from both
  ends: TAB, LF, VT, FF, CR, SP, NBSP, U+1680, U+2000..U+200A, U+2028, U+2029, U+202F,
  U+205F, U+3000 and U+FEFF.
\<close>

definition isTrimSpace :: "jschar \<Rightarrow> bool" where
  "isTrimSpace c \<longleftrightarrow>
     c \<in> {0x9, 0xA, 0xB, 0xC, 0xD, 0x20, 0xA0, 0x1680, 0x2028, 0x2029, 0x202F, 0x205F,
          0x3000, 0xFEFF}
     \<or> (0x2000 \<le> c \<and> c \<le> 0x200A)"

definition js_trim :: "jsstring \<Rightarrow> jsstring" where
  "js_trim s = rev (dropWhile isTrimSpace (rev (dropWhile isTrimSpace s)))"

text \<open>
  \<open>s.split(sep)\<close> for a separator of one code unit. A code unit other than the separator
  joins the first segment of the rest; the result is never empty, so the \<open>[]\<close> case
  below is never taken.
\<close>

fun js_split :: "jschar \<Rightarrow> jsstring \<Rightarrow> jsstring list" where
  "js_split sep [] = [[]]"
| "js_split sep (c # cs) =
     (if c = sep then [] # js_split sep cs
      else (case js_split sep cs of
              segment # segments \<Rightarrow> (c # segment) # segments
            | [] \<Rightarrow> [[c]]))"

text \<open>\<open>parts.join(sep)\<close>.\<close>

fun js_join :: "jsstring \<Rightarrow> jsstring list \<Rightarrow> jsstring" where
  "js_join sep [] = []"
| "js_join sep [x] = x"
| "js_join sep (x # y # ys) = x @ sep @ js_join sep (y # ys)"

text \<open>\<open>s.includes(k)\<close>: \<open>k\<close> occurs in \<open>s\<close> as a contiguous run.\<close>

definition js_includes :: "jsstring \<Rightarrow> jsstring \<Rightarrow> bool" where
  "js_includes s k = sublist k s"

text \<open>
  \<open>s.replace(/pat/g, '')\<close> for a literal pattern: every occurrence, found from the left
  and not overlapping an earlier one, is removed. (The pattern of the source is not empty;
  the test \<open>pat \<noteq> []\<close> is there for termination.)
\<close>

function js_removeAll :: "jsstring \<Rightarrow> jsstring \<Rightarrow> jsstring" where
  "js_removeAll pat [] = []"
| "js_removeAll pat (c # cs) =
     (if pat \<noteq> [] \<and> prefix pat (c # cs)
      then js_removeAll pat (drop (length pat) (c # cs))
      else c # js_removeAll pat cs)"
  by pat_completeness auto
termination
  by (relation "measure (\<lambda>(pat, s). length s)") auto

text \<open>
  Matching under the \<open>i\<close> flag (without \<open>u\<close>): a code unit of the text matches an ASCII
  code unit of the pattern iff both are the same up to the case of the letters A-Z; no
  code unit above 127 is folded onto an ASCII one.
\<close>

definition lowerAscii :: "jschar \<Rightarrow> jschar" where
  "lowerAscii c = (if 0x41 \<le> c \<and> c \<le> 0x5A then c + 0x20 else c)"

fun prefix_ci :: "jsstring \<Rightarrow> jsstring \<Rightarrow> bool" where
  "prefix_ci [] s = True"
| "prefix_ci (p # pat) [] = False"
| "prefix_ci (p # pat) (c # cs) =
     (if lowerAscii p = lowerAscii c then prefix_ci pat cs else False)"

text \<open>Index of the first occurrence of \<open>pat\<close> in \<open>s\<close>, ignoring case.\<close>

fun find_ci :: "jsstring \<Rightarrow> jsstring \<Rightarrow> nat option" where
  "find_ci pat [] = (if pat = [] then Some 0 else None)"
| "find_ci pat (c # cs) =
     (if prefix_ci pat (c # cs) then Some 0 else map_option Suc (find_ci pat cs))"

text \<open>
  \<open>s.replace(/OPEN[\s\S]*?CLOSE/gi, '')\<close>: from the left, a block that starts with the
  opening tag and ends with the first closing tag after it is removed; an opening tag
  with no closing tag after it stays. (The tags of the source are not empty; the test
  \<open>opn \<noteq> []\<close> is there for termination.)
\<close>

function stripBlocks :: "jsstring \<Rightarrow> jsstring \<Rightarrow> jsstring \<Rightarrow> jsstring" where
  "stripBlocks opn cls [] = []"
| "stripBlocks opn cls (c # cs) =
     (if opn \<noteq> [] \<and> prefix_ci opn (c # cs) then
        (case find_ci cls (drop (length opn) (c # cs)) of
           Some k \<Rightarrow> stripBlocks opn cls (drop (length opn + k + length cls) (c # cs))
         | None \<Rightarrow> c # stripBlocks opn cls cs)
      else c # stripBlocks opn cls cs)"
  by pat_completeness auto
termination
  by (relation "measure (\<lambda>(opn, cls, s). length s)") auto

section \<open>Errors and the text oracle\<close>

text \<open>
  The exceptions of the source, as values. \<open>UtilsAI.askGroq\<close> (utils_ai.js) returns the
  reply text or throws; it is an external service, so it is a parameter here: a function
  from the prompt and the model name to the reply or the error it throws. \<open>None\<close> stands for
  \<open>typeof UtilsAI === 'undefined'\<close>.
\<close>

datatype error =
    DependencyUnavailable
  | ResponseFormatError jsstring
  | InvalidSaveFlag jsstring
  | RequestFailed jsstring
  | Exception jsstring

type_synonym text_oracle = "jsstring \<Rightarrow> jsstring \<Rightarrow> error + jsstring"

definition AI_CLASSIFICATION_PROMPT :: jsstring where
  "AI_CLASSIFICATION_PROMPT =
    [0x7ED9, 0x5B9A, 0x4E00, 0x6761, 0x65B0, 0x95FB, 0x6807, 0x9898, 0xFF0C, 0x5224, 0x65AD,
     0x5B83, 0x5C5E, 0x4E8E, 0x54EA, 0x7C7B, 0x65B0, 0x95FB, 0xFF0C, 0x5E76, 0x8F93, 0x51FA,
     0x4FDD, 0x5B58, 0x6807, 0x8BB0, 0x3002, 0xA, 0xA, 0x8BF7, 0x4E25, 0x683C, 0x6309, 0x7167,
     0x4EE5, 0x4E0B, 0x69, 0x66, 0x2E, 0x2E, 0x2E, 0x65, 0x6C, 0x73, 0x65, 0x903B, 0x8F91,
     0x6267, 0x884C, 0x5224, 0x65AD, 0xFF1A, 0xA, 0xA, 0x7B2C, 0x4E00, 0x6B65, 0xFF1A, 0x786E,
     0x5B9A, 0x65B0, 0x95FB, 0x5206, 0x7C7B, 0xA, 0x4ECE, 0x4EE5, 0x4E0B, 0x7C7B, 0x522B,
     0x4E2D, 0x9009, 0x62E9, 0x6700, 0x5339, 0x914D, 0x7684, 0x4E00, 0x9879, 0xFF1A, 0x653F,
     0x6CBB, 0x65B0, 0x95FB, 0x3001, 0x8D22, 0x7ECF, 0x65B0, 0x95FB, 0x3001, 0x519B, 0x4E8B,
     0x65B0, 0x95FB, 0x3001, 0x79D1, 0x6280, 0x65B0, 0x95FB, 0x3001, 0x793E, 0x4F1A, 0x65B0,
     0x95FB, 0x3001, 0x5A31, 0x4E50, 0x65B0, 0x95FB, 0x3001, 0x4F53, 0x80B2, 0x65B0, 0x95FB,
     0x3001, 0x5929, 0x6C14, 0x65B0, 0x95FB, 0x3001, 0x5176, 0x4ED6, 0x65B0, 0x95FB, 0xA, 0xA,
     0x7B2C, 0x4E8C, 0x6B65, 0xFF1A, 0x6839, 0x636E, 0x5206, 0x7C7B, 0x786E, 0x5B9A, 0x4FDD,
     0x5B58, 0x6807, 0x8BB0, 0xA, 0x49, 0x46, 0x20, 0x5206, 0x7C7B, 0x662F, 0x20, 0x4F53,
     0x80B2, 0x65B0, 0x95FB, 0x20, 0x4F, 0x52, 0x20, 0x519B, 0x4E8B, 0x65B0, 0x95FB, 0x20,
     0x4F, 0x52, 0x20, 0x5A31, 0x4E50, 0x65B0, 0x95FB, 0xFF1A, 0xA, 0x20, 0x20, 0x4FDD, 0x5B58,
     0x6807, 0x8BB0, 0x20, 0x3D, 0x20, 0x30, 0xA, 0x45, 0x4C, 0x53, 0x45, 0x20, 0x49, 0x46,
     0x20, 0x5206, 0x7C7B, 0x662F, 0x20, 0x653F, 0x6CBB, 0x65B0, 0x95FB, 0xFF1A, 0xA, 0x20,
     0x20, 0x49, 0x46, 0x20, 0x6807, 0x9898, 0x6D89, 0x53CA, 0x65E5, 0x672C, 0x3001, 0x97E9,
     0x56FD, 0x6216, 0x53F0, 0x6E7E, 0xFF0C, 0x4E14, 0x4EC5, 0x6D89, 0x53CA, 0x8FD9, 0x4E9B,
     0x56FD, 0x5BB6, 0x6216, 0x5730, 0x533A, 0x7684, 0x5185, 0x90E8, 0x653F, 0x6CBB, 0xFF0C,
     0x4E0E, 0x5176, 0x4ED6, 0x56FD, 0x5BB6, 0x65E0, 0x5173, 0x8054, 0xFF1A, 0xA, 0x20, 0x20,
     0x20, 0x20, 0x4FDD, 0x5B58, 0x6807, 0x8BB0, 0x20, 0x3D, 0x20, 0x30, 0xA, 0x20, 0x20, 0x45,
     0x4C, 0x53, 0x45, 0x20, 0x49, 0x46, 0x20, 0x6807, 0x9898, 0x6D89, 0x53CA, 0x56FD, 0x5BB6,
     0x516C, 0x804C, 0x4EBA, 0x5458, 0x6216, 0x56FD, 0x4F01, 0x3001, 0x4E8B, 0x4E1A, 0x5355,
     0x4F4D, 0x9AD8, 0x7BA1, 0x8D2A, 0x6C61, 0x8150, 0x8D25, 0x8FDD, 0x7EAA, 0x7684, 0x76F8,
     0x5173, 0x5904, 0x7F6E, 0xFF1A, 0xA, 0x20, 0x20, 0x20, 0x20, 0x4FDD, 0x5B58, 0x6807,
     0x8BB0, 0x20, 0x3D, 0x20, 0x30, 0xA, 0x20, 0x20, 0x45, 0x4C, 0x53, 0x45, 0xFF1A, 0xA,
     0x20, 0x20, 0x20, 0x20, 0x4FDD, 0x5B58, 0x6807, 0x8BB0, 0x20, 0x3D, 0x20, 0x31, 0xA, 0x45,
     0x4C, 0x53, 0x45, 0x20, 0x49, 0x46, 0x20, 0x5206, 0x7C7B, 0x662F, 0x20, 0x79D1, 0x6280,
     0x65B0, 0x95FB, 0xFF1A, 0xA, 0x20, 0x20, 0x49, 0x46, 0x20, 0x6807, 0x9898, 0x4E3B, 0x8981,
     0x5173, 0x4E8E, 0x67D0, 0x6B3E, 0x5177, 0x4F53, 0x7684, 0x7535, 0x5B50, 0x4EA7, 0x54C1,
     0x53D1, 0x5E03, 0x6216, 0x8F6F, 0x4EF6, 0x66F4, 0x65B0, 0xFF1A, 0xA, 0x20, 0x20, 0x20,
     0x20, 0x4FDD, 0x5B58, 0x6807, 0x8BB0, 0x20, 0x3D, 0x20, 0x30, 0xA, 0x20, 0x20, 0x45, 0x4C,
     0x53, 0x45, 0xFF1A, 0xA, 0x20, 0x20, 0x20, 0x20, 0x4FDD, 0x5B58, 0x6807, 0x8BB0, 0x20,
     0x3D, 0x20, 0x31, 0xA, 0x45, 0x4C, 0x53, 0x45, 0xFF1A, 0xA, 0x20, 0x20, 0x4FDD, 0x5B58,
     0x6807, 0x8BB0, 0x20, 0x3D, 0x20, 0x31, 0xA, 0xA, 0x6700, 0x7EC8, 0x8F93, 0x51FA, 0x683C,
     0x5F0F, 0xFF1A, 0x4FDD, 0x5B58, 0x6807, 0x8BB0, 0x2C, 0x5206, 0x7C7B, 0xA, 0x4F8B, 0x5982,
     0xFF1A, 0x31, 0x2C, 0x653F, 0x6CBB, 0x65B0, 0x95FB, 0x20, 0x6216, 0x20, 0x30, 0x2C,
     0x4F53, 0x80B2, 0x65B0, 0x95FB, 0xA, 0xA, 0x65B0, 0x95FB, 0x6807, 0x9898, 0x5982, 0x4E0B,
     0xFF1A]"

definition AI_SUMMARIZATION_PROMPT :: jsstring where
  "AI_SUMMARIZATION_PROMPT =
    [0x8BF7, 0x5C06, 0x4EE5, 0x4E0B, 0x65B0, 0x95FB, 0x5185, 0x5BB9, 0x603B, 0x7ED3, 0x4E3A,
     0x4E0D, 0x8D85, 0x8FC7, 0x34, 0x30, 0x30, 0x5B57, 0x7684, 0x7B80, 0x6D01, 0x7248, 0x672C,
     0x3002, 0x8981, 0x6C42, 0xFF1A, 0xA, 0x31, 0x2E, 0x20, 0x4FDD, 0x7559, 0x65B0, 0x95FB,
     0x7684, 0x6838, 0x5FC3, 0x4E8B, 0x5B9E, 0x548C, 0x5173, 0x952E, 0x4FE1, 0x606F, 0xA, 0x32,
     0x2E, 0x20, 0x4FDD, 0x6301, 0x903B, 0x8F91, 0x6E05, 0x6670, 0xFF0C, 0x8BED, 0x53E5,
     0x901A, 0x987A, 0xA, 0x33, 0x2E, 0x20, 0x4E0D, 0x8981, 0x6DFB, 0x52A0, 0x4E2A, 0x4EBA,
     0x89C2, 0x70B9, 0x6216, 0x8BC4, 0x8BBA, 0xA, 0x34, 0x2E, 0x20, 0x4E0D, 0x8981, 0x4F7F,
     0x7528, 0x22, 0x8BB0, 0x8005, 0x22, 0x3001, 0x22, 0x76D1, 0x5236, 0x22, 0x3001, 0x22,
     0x4F5C, 0x8005, 0x22, 0x7B49, 0x8BCD, 0x6C47, 0xA, 0x35, 0x2E, 0x20, 0x76F4, 0x63A5,
     0x8F93, 0x51FA, 0x603B, 0x7ED3, 0x5185, 0x5BB9, 0xFF0C, 0x4E0D, 0x8981, 0x4EFB, 0x4F55,
     0x524D, 0x7F00, 0x6216, 0x89E3, 0x91CA, 0xA, 0xA, 0x65B0, 0x95FB, 0x5185, 0x5BB9, 0x5982,
     0x4E0B, 0xFF1A]"

definition aiModel :: jsstring where
  "aiModel = js ''qwen/qwen3-32b''"

section \<open>NewsUtils.AI\<close>

text \<open>\<open>cleanThinkingTags\<close> (utils_network.js, 867-872).\<close>

definition cleanThinkingTags :: "jsstring \<Rightarrow> jsstring" where
  "cleanThinkingTags rawResponse =
     js_trim (stripBlocks (js ''<thinking>'') (js ''</thinking>'')
               (stripBlocks (js ''<think>'') (js ''</think>'') rawResponse))"

record classification =
  shouldSave :: bool
  category :: jsstring

text \<open>
  The category of the \<open>catch\<close> block (830): the four code units U+5206 U+7C7B U+5931 U+8D25,
  "classification failed".
\<close>

definition failureCategory :: jsstring where
  "failureCategory = [0x5206, 0x7C7B, 0x5931, 0x8D25]"

definition classificationFailed :: classification where
  "classificationFailed = \<lparr>shouldSave = False, category = failureCategory\<rparr>"

definition comma :: jschar where
  "comma = 0x2C"

text \<open>Lines 803-825 of \<open>classifyNewsByTitle\<close>: the parse of the cleaned response.\<close>

definition parseResponse :: "jsstring \<Rightarrow> error + classification" where
  "parseResponse response =
     (let parts = map js_trim (js_split comma response) in
      if length parts < 2 then Inl (ResponseFormatError response)
      else
        let shouldSaveStr = hd parts;
            category = js_join [comma] (tl parts)
        in if shouldSaveStr \<noteq> js ''0'' \<and> shouldSaveStr \<noteq> js ''1''
           then Inl (InvalidSaveFlag shouldSaveStr)
           else Inr \<lparr>shouldSave = (shouldSaveStr = js ''1''), category = category\<rparr>)"

text \<open>The \<open>try\<close> block of \<open>classifyNewsByTitle\<close> (791-825).\<close>

definition classifyTry :: "text_oracle option \<Rightarrow> jsstring \<Rightarrow> error + classification" where
  "classifyTry utilsAI title =
     (case utilsAI of
        None \<Rightarrow> Inl DependencyUnavailable
      | Some askGroq \<Rightarrow>
          (case askGroq (AI_CLASSIFICATION_PROMPT @ title) aiModel of
             Inl e \<Rightarrow> Inl e
           | Inr rawResponse \<Rightarrow> parseResponse (cleanThinkingTags rawResponse)))"

text \<open>\<open>classifyNewsByTitle\<close> (788-832): the \<open>catch\<close> maps every error to the failure value.\<close>

definition classifyNewsByTitle :: "text_oracle option \<Rightarrow> jsstring \<Rightarrow> classification" where
  "classifyNewsByTitle utilsAI title =
     (case classifyTry utilsAI title of
        Inr c \<Rightarrow> c
      | Inl e \<Rightarrow> classificationFailed)"

text \<open>The \<open>try\<close> block of \<open>summarizeContent\<close> (842-853).\<close>

definition summarizeTry :: "text_oracle option \<Rightarrow> jsstring \<Rightarrow> error + jsstring" where
  "summarizeTry utilsAI content =
     (case utilsAI of
        None \<Rightarrow> Inl DependencyUnavailable
      | Some askGroq \<Rightarrow>
          (case askGroq (AI_SUMMARIZATION_PROMPT @ content) aiModel of
             Inl e \<Rightarrow> Inl e
           | Inr rawResponse \<Rightarrow> Inr (cleanThinkingTags rawResponse)))"

text \<open>\<open>summarizeContent\<close> (839-860): the \<open>catch\<close> returns the content it was given.\<close>

definition summarizeContent :: "text_oracle option \<Rightarrow> jsstring \<Rightarrow> jsstring" where
  "summarizeContent utilsAI content =
     (case summarizeTry utilsAI content of
        Inr response \<Rightarrow> response
      | Inl e \<Rightarrow> content)"

text \<open>Two oracles used to exercise the code: one that always replies, one that always throws.\<close>

definition replyWith :: "jsstring \<Rightarrow> text_oracle" where
  "replyWith r = (\<lambda>prompt model. Inr r)"

definition failWith :: "error \<Rightarrow> text_oracle" where
  "failWith e = (\<lambda>prompt model. Inl e)"

subsection \<open>The parse as the specification words it\<close>

text \<open>
  The specification's reading of the response: the flag is the text before the first
  comma and must be exactly \<open>0\<close> or \<open>1\<close>, the category is the remainder after the first
  comma. It is compared with \<open>classifyNewsByTitle\<close> below.
\<close>

definition parseFlagCategory_spec :: "jsstring \<Rightarrow> classification" where
  "parseFlagCategory_spec response =
     (if comma \<notin> set response then classificationFailed
      else
        let flag = takeWhile (\<lambda>c. c \<noteq> comma) response;
            rest = tl (dropWhile (\<lambda>c. c \<noteq> comma) response)
        in if flag = js ''1'' then \<lparr>shouldSave = True, category = rest\<rparr>
           else if flag = js ''0'' then \<lparr>shouldSave = False, category = rest\<rparr>
           else classificationFailed)"

definition classify_spec :: "text_oracle option \<Rightarrow> jsstring \<Rightarrow> classification" where
  "classify_spec utilsAI title =
     (case utilsAI of
        None \<Rightarrow> classificationFailed
      | Some askGroq \<Rightarrow>
          (case askGroq (AI_CLASSIFICATION_PROMPT @ title) aiModel of
             Inl e \<Rightarrow> classificationFailed
           | Inr rawResponse \<Rightarrow> parseFlagCategory_spec (cleanThinkingTags rawResponse)))"

section \<open>NewsUtils.Content.cleanFooterContent\<close>

definition newline :: jschar where
  "newline = 0xA"

text \<open>
  \<open>keywordsToRemove\<close> (744): the five markers U+8BB0 U+8005 (reporter), U+76D1 U+5236
  (producer), U+4F5C U+8005 (author), U+4EC5 U+4F9B U+53C2 U+8003 (for reference only),
  U+7248 U+6743 U+6240 U+6709 (all rights reserved).
\<close>

definition keywordsToRemove :: "jsstring list" where
  "keywordsToRemove =
     [[0x8BB0, 0x8005], [0x76D1, 0x5236], [0x4F5C, 0x8005],
      [0x4EC5, 0x4F9B, 0x53C2, 0x8003], [0x7248, 0x6743, 0x6240, 0x6709]]"

text \<open>The end-of-article token \<open>(\<close>U+5B8C\<open>)\<close> of line 751.\<close>

definition endMarker :: jsstring where
  "endMarker = [0x28, 0x5B8C, 0x29]"

definition linesToCheck :: nat where
  "linesToCheck = 10"

text \<open>The callback of \<open>map\<close> (747-756).\<close>

definition processLine :: "jsstring \<Rightarrow> jsstring" where
  "processLine line =
     (let processedLine = js_trim line in
      if js_includes processedLine endMarker
      then js_trim (js_removeAll endMarker processedLine)
      else processedLine)"

text \<open>The callback of \<open>filter\<close> (756-759).\<close>

definition keepLine :: "jsstring \<Rightarrow> bool" where
  "keepLine line = (\<not> list_ex (\<lambda>keyword. js_includes line keyword) keywordsToRemove)"

text \<open>Lines 738-762: from \<open>lines\<close> to \<open>resultLines\<close>.\<close>

definition footerResultLines :: "jsstring list \<Rightarrow> jsstring list" where
  "footerResultLines lines =
     (let startIndex = nat (max 0 (int (length lines) - int linesToCheck - 1));
          linesToProcess = drop startIndex lines;
          remainingLines = take startIndex lines;
          processedLines = filter keepLine (map processLine linesToProcess)
      in remainingLines @ processedLines)"

definition cleanFooterContent :: "jsstring \<Rightarrow> jsstring" where
  "cleanFooterContent content =
     (if content = [] \<or> length (js_trim content) = 0 then content
      else
        let lines = js_split newline content in
        if length lines = 0 then content
        else js_trim (js_join [newline] (footerResultLines lines)))"

text \<open>Three documents used to exercise the scrubber.\<close>

definition leadingSpaceDocument :: jsstring where
  "leadingSpaceDocument =
     js_join [newline]
       [js ''  a'', js ''b'', js ''c'', js ''d'', js ''e'', js ''f'', js ''g'', js ''h'',
        js ''i'', js ''j'', js ''k'', js ''l'', js ''m'']"

definition markerOnEleventhDocument :: jsstring where
  "markerOnEleventhDocument =
     js_join [newline]
       [js ''a'', [0x8BB0, 0x8005], js ''c'', js ''d'', js ''e'', js ''f'', js ''g'', js ''h'',
        js ''i'', js ''j'', js ''k'', js ''l'']"

definition twoMarkersDocument :: jsstring where
  "twoMarkersDocument =
     js_join [newline]
       [js ''a'', [0x8BB0, 0x8005], js ''c'', js ''d'', js ''e'', js ''f'', js ''g'', js ''h'',
        js ''i'', js ''j'', js ''k'', [0x76D1, 0x5236, 0x78], js ''m'', js ''n'', js ''o'',
        js ''p'']"

text \<open>
  The statement as the specification words it: the lines up to and including the eleventh from
  the end are the same in the output as in the input.
\<close>

definition headLinesUnchanged_spec :: "jsstring \<Rightarrow> bool" where
  "headLinesUnchanged_spec content =
     (let lines = js_split newline content;
          out = js_split newline (cleanFooterContent content)
      in take (length lines - 10) out = take (length lines - 10) lines)"

section \<open>NewsUtils.Content.fetchDetailPageContent: choosing the fragment\<close>

text \<open>
  The regular expression literal of line 690 is
  \<^verbatim>\<open>/<body[^>]*>([\\s\\S]*?)<\/body>/i\<close>.
  In a literal, \<^verbatim>\<open>\\\<close> is an escaped backslash, so the class
  \<^verbatim>\<open>[\\s\\S]\<close> holds three code units: the backslash, \<open>s\<close> and \<open>S\<close>.
\<close>

definition bodyClass :: "jschar \<Rightarrow> bool" where
  "bodyClass c \<longleftrightarrow> c \<in> {0x5C, 0x73, 0x53}"

text \<open>
  The match of that expression anchored at the start of \<open>s\<close>, giving group 1:
  \<open><body\<close>, then everything up to the first \<open>>\<close>, then a run of class members (the
  lazy star cannot stop early, a closing tag begins with \<open><\<close>), then \<open></body>\<close>.
\<close>

definition bodyMatchAt :: "jsstring \<Rightarrow> jsstring option" where
  "bodyMatchAt s =
     (if prefix_ci (js ''<body'') s then
        (case dropWhile (\<lambda>c. c \<noteq> 0x3E) (drop 5 s) of
           [] \<Rightarrow> None
         | gt # rest \<Rightarrow>
             if prefix_ci (js ''</body>'') (dropWhile bodyClass rest)
             then Some (takeWhile bodyClass rest)
             else None)
      else None)"

text \<open>\<open>html.match(...)\<close>: the leftmost position where the expression matches.\<close>

fun bodyMatch :: "jsstring \<Rightarrow> jsstring option" where
  "bodyMatch [] = None"
| "bodyMatch (c # cs) =
     (case bodyMatchAt (c # cs) of
        Some g \<Rightarrow> Some g
      | None \<Rightarrow> bodyMatch cs)"

text \<open>\<open>defaultSelectors\<close> (655-662).\<close>

definition defaultSelectors :: "jsstring list" where
  "defaultSelectors =
     [js ''article'', js ''.content'', js ''div[class*=\"content\"]'',
      js ''div[class*=\"main\"]'', js ''div[class*=\"article\"]'', js ''div[class*=\"post\"]'']"

text \<open>
  The loop over the selectors (674-686). \<open>Utils.extractElement\<close> (utils.js) is taken as a
  parameter: a function from the page and a selector to the extracted fragment, the
  empty string when the selector finds nothing.
\<close>

fun trySelectors :: "(jsstring \<Rightarrow> jsstring \<Rightarrow> jsstring) \<Rightarrow> jsstring \<Rightarrow> jsstring list \<Rightarrow> jsstring" where
  "trySelectors extractElement html [] = []"
| "trySelectors extractElement html (selector # selectors) =
     (let extractedContent = extractElement html selector in
      if extractedContent \<noteq> [] \<and> length (js_trim extractedContent) > 0
         \<and> length (js_trim extractedContent) > 100
      then extractedContent
      else trySelectors extractElement html selectors)"

text \<open>Lines 688-696: the fallback when the loop left \<open>content\<close> empty.\<close>

definition bodyFallback :: "jsstring \<Rightarrow> jsstring \<Rightarrow> jsstring" where
  "bodyFallback html content =
     (if content = [] then
        (case bodyMatch html of
           Some group1 \<Rightarrow> if group1 \<noteq> [] then group1 else html
         | None \<Rightarrow> html)
      else content)"

text \<open>Lines 664-696: \<open>content\<close> as it stands before the exclusion selectors and the cleaning.\<close>

definition selectContent ::
  "(jsstring \<Rightarrow> jsstring \<Rightarrow> jsstring) \<Rightarrow> jsstring list \<Rightarrow> jsstring \<Rightarrow> jsstring" where
  "selectContent extractElement configured html =
     (let selectors = (if configured \<noteq> [] then configured else defaultSelectors)
      in bodyFallback html (trySelectors extractElement html selectors))"

text \<open>An \<open>extractElement\<close> that finds nothing, as on a page with no element a selector names.\<close>

definition noElementFound :: "jsstring \<Rightarrow> jsstring \<Rightarrow> jsstring" where
  "noElementFound html selector = []"

text \<open>A page with a head and a body, and its body content.\<close>

definition samplePage :: jsstring where
  "samplePage = js ''<html><head><title>T</title></head><body><p>Hello</p></body></html>''"

definition samplePageBody :: jsstring where
  "samplePageBody = js ''<p>Hello</p>''"

section \<open>Persistence\<close>

text \<open>\<open>Utils.safeFileName\<close> (utils.js, 132-138): the class of line 133 holds
  \<^verbatim>\<open>\ / : * ? " < > |\<close>.\<close>

definition illegalChar :: "jschar \<Rightarrow> bool" where
  "illegalChar c \<longleftrightarrow> c \<in> {0x5C, 0x2F, 0x3A, 0x2A, 0x3F, 0x22, 0x3C, 0x3E, 0x7C}"

definition safeFileName :: "jsstring \<Rightarrow> nat \<Rightarrow> jsstring" where
  "safeFileName text maxLength =
     (let safe = filter (\<lambda>c. \<not> illegalChar c) text;
          safe = (if length safe > maxLength then take maxLength safe else safe)
      in js_trim safe)"

text \<open>
  The files of the target Drive folder, as pairs of name and content. Drive allows several
  files of one name, so the folder is a list and not a map; \<open>getFilesByName(name).next()\<close>
  is the first file of that name.
\<close>

type_synonym folder = "(jsstring \<times> jsstring) list"

definition filesByName :: "folder \<Rightarrow> jsstring \<Rightarrow> folder" where
  "filesByName folder fileName = filter (\<lambda>(n, c). n = fileName) folder"

fun setContentOfFirst :: "jsstring \<Rightarrow> jsstring \<Rightarrow> folder \<Rightarrow> folder" where
  "setContentOfFirst fileName content [] = []"
| "setContentOfFirst fileName content ((n, c) # files) =
     (if n = fileName then (n, content) # files
      else (n, c) # setContentOfFirst fileName content files)"

text \<open>
  \<open>UtilsGoogleDrive.saveOrUpdateFile\<close> (utils_google_drive.js, 185-217). The folder handle
  is not null here (the orchestrator returns at line 1017 when it is). \<open>driveThrows\<close> says
  that a Drive call of the inner \<open>try\<close> throws; the function then returns false.
\<close>

definition saveOrUpdateFile :: "bool \<Rightarrow> folder \<Rightarrow> jsstring \<Rightarrow> jsstring \<Rightarrow> bool \<times> folder" where
  "saveOrUpdateFile driveThrows folder fileName content =
     (if fileName = [] \<or> length (js_trim fileName) = 0 then (False, folder)
      else if driveThrows then (False, folder)
      else if filesByName folder fileName \<noteq> []
        then (True, setContentOfFirst fileName content folder)
        else (True, folder @ [(fileName, content)]))"

text \<open>
  \<open>saveNewsToDrive\<close> (948-979); \<open>driveDeployed\<close> is the dependency check of line 951, whose
  failure is thrown and caught at 975.
\<close>

definition saveNewsToDrive ::
  "bool \<Rightarrow> bool \<Rightarrow> folder \<Rightarrow> jsstring \<Rightarrow> jsstring \<Rightarrow> bool \<times> folder" where
  "saveNewsToDrive driveDeployed driveThrows folder title content =
     (if \<not> driveDeployed then (False, folder)
      else
        let fileName = safeFileName title 100 @ js ''.txt''
        in saveOrUpdateFile driveThrows folder fileName content)"

text \<open>
  \<open>formatNewsContent\<close> (923-939), with the fields of its argument as arguments. The
  literals are: the prefixes \<open>AI\<close> U+603B U+7ED3 U+FF1A LF and U+65B0 U+95FB U+539F U+6587
  U+FF1A LF, and the defaults of the four \<open>||\<close>.
\<close>

definition formatNewsContent ::
  "jsstring \<Rightarrow> jsstring \<Rightarrow> jsstring \<Rightarrow> jsstring \<Rightarrow> bool \<Rightarrow> jsstring" where
  "formatNewsContent source categoryName newsTitle content isAISummarized =
     (let contentPrefix =
            (if isAISummarized then [0x41, 0x49, 0x603B, 0x7ED3, 0xFF1A, 0xA]
             else [0x65B0, 0x95FB, 0x539F, 0x6587, 0xFF1A, 0xA]);
          finalContent = contentPrefix @
            (if content \<noteq> [] then content
             else [0x3010, 0x5185, 0x5BB9, 0x4E3A, 0x7A7A, 0x3011])
      in [0x6765, 0x6E90, 0xFF1A] @ (if source \<noteq> [] then source else [0x672A, 0x77E5])
         @ [0xA, 0x5206, 0x7C7B, 0xFF1A]
         @ (if categoryName \<noteq> [] then categoryName else [0x672A, 0x5206, 0x7C7B])
         @ [0xA, 0xA]
         @ (if newsTitle \<noteq> [] then newsTitle else [0x3010, 0x65E0, 0x6807, 0x9898, 0x3011])
         @ [0xA, 0xA]
         @ finalContent)"

section \<open>The batch orchestrator\<close>

definition minContentLength :: nat where
  "minContentLength = 30"

definition maxContentLength :: nat where
  "maxContentLength = 500"

definition defaultMaxEntriesPerFeed :: nat where
  "defaultMaxEntriesPerFeed = 50"

record feed =
  name :: jsstring
  url :: jsstring
  feedType :: jsstring
  processGroup :: nat
  maxEntriesPerFeed :: "nat option"

record entry =
  title :: jsstring
  link :: jsstring
  description :: jsstring
  contentEncoded :: jsstring

text \<open>
  A call site of the run: the index of the feed in \<open>targetFeeds\<close> and the index of the
  entry in \<open>limitedEntries\<close>. The external services may answer differently at each site.
\<close>

type_synonym site = "nat \<times> nat"

text \<open>
  The collaborators of the orchestrator. \<open>fetchAndParse\<close> and \<open>extractNewsContent\<close> do
  network input and are taken by their interface; the source's versions catch their own
  failures, and here they may also raise, so that the \<open>catch\<close> blocks of the orchestrator
  are reachable.
\<close>

record services =
  utilsAIDeployed :: bool
  askGroq :: "site \<Rightarrow> text_oracle"
  fetchAndParse :: "nat \<Rightarrow> jsstring \<Rightarrow> jsstring \<Rightarrow> error + entry list"
  extractNewsContent :: "site \<Rightarrow> entry \<Rightarrow> feed \<Rightarrow> error + jsstring"
  driveDeployed :: bool
  driveThrows :: "site \<Rightarrow> bool"

definition utilsAI :: "services \<Rightarrow> site \<Rightarrow> text_oracle option" where
  "utilsAI sv s = (if utilsAIDeployed sv then Some (askGroq sv s) else None)"

text \<open>The log calls of \<open>processNewsFeedsByGroup\<close> itself (the components' own are left out).\<close>

datatype logEvent =
    ProcessFeed jsstring
  | ScanRange nat jsstring
  | SkipInvalidTitle nat
  | SkipNews jsstring jsstring
  | ItemError jsstring error
  | FeedError jsstring error

record run =
  totalProcessed :: nat
  totalSaved :: nat
  totalErrors :: nat
  newsFolder :: folder
  log :: "logEvent list"

text \<open>Lines 1058-1069: \<open>finalContent\<close> and \<open>isAISummarized\<close>.\<close>

definition condense :: "text_oracle option \<Rightarrow> jsstring \<Rightarrow> jsstring \<times> bool" where
  "condense ai extractedContent =
     (if length extractedContent > maxContentLength
      then (summarizeContent ai extractedContent, True)
      else (extractedContent, False))"

text \<open>The inner \<open>try\<close> block (1050-1095); \<open>Inl\<close> is an exception that leaves it.\<close>

definition processEntryTry :: "services \<Rightarrow> feed \<Rightarrow> site \<Rightarrow> entry \<Rightarrow> run \<Rightarrow> error + run" where
  "processEntryTry sv feed s entry r =
     (let classification = classifyNewsByTitle (utilsAI sv s) (title entry) in
      if shouldSave classification then
        (case extractNewsContent sv s entry feed of
           Inl e \<Rightarrow> Inl e
         | Inr extractedContent \<Rightarrow>
             (case condense (utilsAI sv s) extractedContent of
                (finalContent, isAISummarized) \<Rightarrow>
                  if length finalContent < minContentLength then Inr r
                  else
                    let newsContent = formatNewsContent (name feed) (category classification)
                                        (title entry) finalContent isAISummarized
                    in (case saveNewsToDrive (driveDeployed sv) (driveThrows sv s)
                               (newsFolder r) (title entry) newsContent of
                          (saved, folder') \<Rightarrow>
                            Inr (r\<lparr>newsFolder := folder',
                                   totalSaved := (if saved then totalSaved r + 1
                                                  else totalSaved r)\<rparr>))))
      else Inr (r\<lparr>log := log r @ [SkipNews (title entry) (category classification)]\<rparr>))"

definition validTitle :: "entry \<Rightarrow> bool" where
  "validTitle entry \<longleftrightarrow> title entry \<noteq> [] \<and> length (js_trim (title entry)) \<noteq> 0"

text \<open>The callback of \<open>limitedEntries.forEach\<close> (1041-1101), for the feed of index \<open>fi\<close>.\<close>

definition processEntry :: "services \<Rightarrow> feed \<Rightarrow> nat \<Rightarrow> run \<Rightarrow> nat \<times> entry \<Rightarrow> run" where
  "processEntry sv feed fi r ie =
     (case ie of (index, entry) \<Rightarrow>
        if \<not> validTitle entry then r\<lparr>log := log r @ [SkipInvalidTitle (index + 1)]\<rparr>
        else
          let r1 = r\<lparr>totalProcessed := totalProcessed r + 1\<rparr> in
          (case processEntryTry sv feed (fi, index) entry r1 of
             Inr r2 \<Rightarrow> r2
           | Inl e \<Rightarrow> r1\<lparr>totalErrors := totalErrors r1 + 1,
                          log := log r1 @ [ItemError (title entry) e]\<rparr>))"

text \<open>\<open>feed.maxEntriesPerFeed || PERFORMANCE_CONFIG.maxEntriesPerFeed\<close> (1030).\<close>

definition maxEntries :: "feed \<Rightarrow> nat" where
  "maxEntries feed =
     (case maxEntriesPerFeed feed of
        None \<Rightarrow> defaultMaxEntriesPerFeed
      | Some n \<Rightarrow> if n = 0 then defaultMaxEntriesPerFeed else n)"

text \<open>The callback of \<open>targetFeeds.forEach\<close> (1027-1108).\<close>

definition processFeed :: "services \<Rightarrow> run \<Rightarrow> nat \<times> feed \<Rightarrow> run" where
  "processFeed sv r ife =
     (case ife of (fi, feed) \<Rightarrow>
        let r0 = r\<lparr>log := log r @ [ProcessFeed (name feed)]\<rparr> in
        (case fetchAndParse sv fi (url feed) (feedType feed) of
           Inl e \<Rightarrow> r0\<lparr>totalErrors := totalErrors r0 + 1,
                        log := log r0 @ [FeedError (name feed) e]\<rparr>
         | Inr entries \<Rightarrow>
             let limitedEntries = take (maxEntries feed) entries;
                 r1 = r0\<lparr>log := log r0 @ [ScanRange (length entries) (name feed)]\<rparr>
             in foldl (processEntry sv feed fi) r1 (enumerate 0 limitedEntries)))"

definition initialRun :: "folder \<Rightarrow> run" where
  "initialRun folder =
     \<lparr>totalProcessed = 0, totalSaved = 0, totalErrors = 0, newsFolder = folder, log = []\<rparr>"

text \<open>
  \<open>processNewsFeedsByGroup\<close> (989-1126): the feeds of the group, the folder that
  \<open>createNewsDateFolder\<close> returned (\<open>None\<close> for null), then the loop. The result is the
  state at the end: the counters of the summary, the folder and the log.
\<close>

definition processNewsFeedsByGroup :: "services \<Rightarrow> feed list \<Rightarrow> nat \<Rightarrow> folder option \<Rightarrow> run option" where
  "processNewsFeedsByGroup sv RSS_FEEDS groupNumber createdFolder =
     (let targetFeeds = filter (\<lambda>feed. processGroup feed = groupNumber) RSS_FEEDS in
      if length targetFeeds = 0 then None
      else
        (case createdFolder of
           None \<Rightarrow> None
         | Some folder \<Rightarrow>
             Some (foldl (processFeed sv) (initialRun folder) (enumerate 0 targetFeeds))))"

text \<open>Which entries and feeds raise, and the entries a feed contributes.\<close>

definition entryRaises :: "services \<Rightarrow> feed \<Rightarrow> site \<Rightarrow> entry \<Rightarrow> bool" where
  "entryRaises sv feed s entry \<longleftrightarrow>
     validTitle entry
     \<and> shouldSave (classifyNewsByTitle (utilsAI sv s) (title entry))
     \<and> isl (extractNewsContent sv s entry feed)"

definition feedRaises :: "services \<Rightarrow> nat \<Rightarrow> feed \<Rightarrow> bool" where
  "feedRaises sv fi feed \<longleftrightarrow> isl (fetchAndParse sv fi (url feed) (feedType feed))"

definition limitedEntriesOf :: "services \<Rightarrow> nat \<Rightarrow> feed \<Rightarrow> entry list" where
  "limitedEntriesOf sv fi feed =
     (case fetchAndParse sv fi (url feed) (feedType feed) of
        Inl e \<Rightarrow> []
      | Inr entries \<Rightarrow> take (maxEntries feed) entries)"

text \<open>
  A sample run: an oracle that keeps every title under the category finance and answers
  the summarization prompt with \<open>sampleSummary\<close>, a first feed whose fetch raises, and a
  second feed of five entries: one whose extraction raises, one without a title, one with
  the body \<open>sampleArticle\<close>, one with a body of 501 code units and one with a body of four.
\<close>

definition sampleSummary :: jsstring where
  "sampleSummary = js ''The central bank cut its main rate today.''"

definition sampleArticle :: jsstring where
  "sampleArticle = js ''A plain article of more than thirty units.''"

definition sampleOracle :: text_oracle where
  "sampleOracle =
     (\<lambda>prompt model.
        if hd prompt = hd AI_CLASSIFICATION_PROMPT then Inr (js ''1,finance'')
        else Inr sampleSummary)"

definition sampleEntry :: "string \<Rightarrow> entry" where
  "sampleEntry t = \<lparr>title = js t, link = [], description = [], contentEncoded = []\<rparr>"

definition sampleEntries :: "entry list" where
  "sampleEntries =
     [sampleEntry ''first'', sampleEntry [], sampleEntry ''third'', sampleEntry ''fourth'',
      sampleEntry ''fifth'']"

definition sampleFeed :: "string \<Rightarrow> feed" where
  "sampleFeed n =
     \<lparr>name = js n, url = [], feedType = js ''rss'', processGroup = 1,
      maxEntriesPerFeed = None\<rparr>"

definition sampleServices :: services where
  "sampleServices =
     \<lparr>utilsAIDeployed = True,
      askGroq = (\<lambda>s. sampleOracle),
      fetchAndParse = (\<lambda>fi u t. if fi = 0 then Inl (RequestFailed []) else Inr sampleEntries),
      extractNewsContent =
        (\<lambda>s e f. if s = (1, 0) then Inl (Exception [])
                 else if s = (1, 3) then Inr (replicate 501 0x79)
                 else if s = (1, 4) then Inr (js ''tiny'')
                 else Inr sampleArticle),
      driveDeployed = True,
      driveThrows = (\<lambda>s. False)\<rparr>"

text \<open>
  Two variants of the sample services: one whose oracle classifies but throws on the
  summarization prompt, one whose oracle discards every title.
\<close>

definition classifyOnlyOracle :: text_oracle where
  "classifyOnlyOracle =
     (\<lambda>prompt model.
        if hd prompt = hd AI_CLASSIFICATION_PROMPT then Inr (js ''1,finance'')
        else Inl (RequestFailed []))"

definition failingSummaryServices :: services where
  "failingSummaryServices = sampleServices\<lparr>askGroq := (\<lambda>s. classifyOnlyOracle)\<rparr>"

definition discardingServices :: services where
  "discardingServices = sampleServices\<lparr>askGroq := (\<lambda>s. replyWith (js ''0,sports''))\<rparr>"

section \<open>Properties\<close>

subsection \<open>Splitting and joining\<close>

lemma js_split_not_Nil [simp]: "js_split sep s \<noteq> []"
  by (induction s) (auto split: list.splits)

lemma js_split_no_sep: "sep \<notin> set s \<Longrightarrow> js_split sep s = [s]"
  by (induction s) auto

lemma js_split_first: "sep \<notin> set f \<Longrightarrow> js_split sep (f @ sep # rest) = f # js_split sep rest"
  by (induction f) auto

lemma js_split_at_first_sep:
  assumes "sep \<in> set s"
  shows "js_split sep s =
           takeWhile (\<lambda>c. c \<noteq> sep) s # js_split sep (tl (dropWhile (\<lambda>c. c \<noteq> sep) s))"
proof -
  let ?f = "takeWhile (\<lambda>c. c \<noteq> sep) s" and ?r = "dropWhile (\<lambda>c. c \<noteq> sep) s"
  from assms have "?r \<noteq> []" by (auto simp: dropWhile_eq_Nil_conv)
  moreover have "?r \<noteq> [] \<Longrightarrow> hd ?r = sep" using hd_dropWhile[of "\<lambda>c. c \<noteq> sep" s] by simp
  ultimately have "?r = sep # tl ?r" by (cases ?r) auto
  then have "s = ?f @ sep # tl ?r" using takeWhile_dropWhile_id[of "\<lambda>c. c \<noteq> sep" s] by simp
  moreover have "sep \<notin> set ?f" by (auto dest: set_takeWhileD)
  ultimately show ?thesis using js_split_first[of sep ?f "tl ?r"] by simp
qed

lemma js_split_join:
  "segs \<noteq> [] \<Longrightarrow> \<forall>s \<in> set segs. sep \<notin> set s \<Longrightarrow> js_split sep (js_join [sep] segs) = segs"
proof (induction segs)
  case Nil then show ?case by simp
next
  case (Cons x xs)
  show ?case
  proof (cases xs)
    case Nil then show ?thesis using Cons.prems by (simp add: js_split_no_sep)
  next
    case (Cons y ys)
    then show ?thesis using Cons.prems Cons.IH js_split_first[of sep x "js_join [sep] xs"] by simp
  qed
qed

subsection \<open>Evaluation\<close>

lemmas string_eval =
  js_def js_trim_def isTrimSpace_def lowerAscii_def comma_def newline_def

lemmas classify_eval =
  classifyNewsByTitle_def classifyTry_def parseResponse_def cleanThinkingTags_def
  replyWith_def failWith_def classificationFailed_def failureCategory_def

subsection \<open>The classifier\<close>

lemma parseResponse_no_comma:
  "comma \<notin> set response \<Longrightarrow> parseResponse response = Inl (ResponseFormatError response)"
  by (simp add: parseResponse_def js_split_no_sep)

lemma parseResponse_segments:
  assumes "js_split comma response = segs" and "2 \<le> length segs"
  shows "parseResponse response =
           (if js_trim (hd segs) \<noteq> js ''0'' \<and> js_trim (hd segs) \<noteq> js ''1''
            then Inl (InvalidSaveFlag (js_trim (hd segs)))
            else Inr \<lparr>shouldSave = (js_trim (hd segs) = js ''1''),
                      category = js_join [comma] (map js_trim (tl segs))\<rparr>)"
proof -
  from assms(2) obtain x y ys where "segs = x # y # ys"
    by (cases segs; cases "tl segs") auto
  with assms(1) show ?thesis by (simp add: parseResponse_def Let_def)
qed

lemma classifyNewsByTitle_reply:
  "ask (AI_CLASSIFICATION_PROMPT @ newsTitle) aiModel = Inr rawResponse \<Longrightarrow>
   classifyNewsByTitle (Some ask) newsTitle =
     (case parseResponse (cleanThinkingTags rawResponse) of
        Inr c \<Rightarrow> c | Inl e \<Rightarrow> classificationFailed)"
  by (simp add: classifyNewsByTitle_def classifyTry_def)

lemma classifyNewsByTitle_throw:
  "ask (AI_CLASSIFICATION_PROMPT @ newsTitle) aiModel = Inl e \<Longrightarrow>
   classifyNewsByTitle (Some ask) newsTitle = classificationFailed"
  by (simp add: classifyNewsByTitle_def classifyTry_def)

lemma classifyNewsByTitle_undeployed:
  "classifyNewsByTitle None newsTitle = classificationFailed"
  by (simp add: classifyNewsByTitle_def classifyTry_def)

text \<open>
  The specification's reading and the code differ on the reply \<open>1, finance\<close>: the code
  trims the segment after the comma, the remainder after the first comma keeps its space.
\<close>

theorem classify_spec_counterexample:
  "classifyNewsByTitle (Some (replyWith (js ''1, finance''))) (js ''t'')
     \<noteq> classify_spec (Some (replyWith (js ''1, finance''))) (js ''t'')"
  by (simp add: classify_eval classify_spec_def parseFlagCategory_spec_def string_eval)

text \<open>
  C3 (as amended). For every oracle outcome and every title the classifier returns a value
  and never throws. An oracle failure, a missing dependency, a cleaned response without a
  comma, or a flag other than \<open>0\<close> or \<open>1\<close> gives exactly the failure classification.
  Otherwise the flag is the text before the first comma after trimming, and the category is
  the text after the first comma, split at its commas, each segment trimmed, and joined
  with commas again.
\<close>

theorem classify_first_comma:
  "classifyNewsByTitle ai newsTitle =
     (case ai of
        None \<Rightarrow> classificationFailed
      | Some ask \<Rightarrow>
          (case ask (AI_CLASSIFICATION_PROMPT @ newsTitle) aiModel of
             Inl e \<Rightarrow> classificationFailed
           | Inr rawResponse \<Rightarrow>
               (let response = cleanThinkingTags rawResponse in
                if comma \<notin> set response then classificationFailed
                else
                  let flag = js_trim (takeWhile (\<lambda>c. c \<noteq> comma) response);
                      rest = tl (dropWhile (\<lambda>c. c \<noteq> comma) response);
                      cat = js_join [comma] (map js_trim (js_split comma rest))
                  in if flag = js ''1'' then \<lparr>shouldSave = True, category = cat\<rparr>
                     else if flag = js ''0'' then \<lparr>shouldSave = False, category = cat\<rparr>
                     else classificationFailed)))"
proof (cases ai)
  case None
  then show ?thesis by (simp add: classifyNewsByTitle_undeployed)
next
  case (Some ask)
  show ?thesis
  proof (cases "ask (AI_CLASSIFICATION_PROMPT @ newsTitle) aiModel")
    case (Inl e)
    with Some show ?thesis by (simp add: classifyNewsByTitle_throw)
  next
    case (Inr raw)
    let ?r = "cleanThinkingTags raw"
    show ?thesis
    proof (cases "comma \<in> set ?r")
      case False
      with Some Inr show ?thesis
        by (simp add: classifyNewsByTitle_reply parseResponse_no_comma)
    next
      case True
      let ?segs = "takeWhile (\<lambda>c. c \<noteq> comma) ?r
                     # js_split comma (tl (dropWhile (\<lambda>c. c \<noteq> comma) ?r))"
      have sp: "js_split comma ?r = ?segs" by (rule js_split_at_first_sep[OF True])
      have len: "2 \<le> length ?segs"
        by (cases "js_split comma (tl (dropWhile (\<lambda>c. c \<noteq> comma) ?r))") simp_all
      show ?thesis using Some Inr True
        by (simp add: classifyNewsByTitle_reply parseResponse_segments[OF sp len] Let_def)
    qed
  qed
qed

theorem classify_first_comma_witness:
  "classifyNewsByTitle (Some (replyWith (js ''1,finance''))) (js ''t'')
     = \<lparr>shouldSave = True, category = js ''finance''\<rparr>
   \<and> classifyNewsByTitle (Some (replyWith (js ''0,sports''))) (js ''t'')
     = \<lparr>shouldSave = False, category = js ''sports''\<rparr>
   \<and> classifyNewsByTitle (Some (replyWith (js ''maybe''))) (js ''t'') = classificationFailed
   \<and> classifyNewsByTitle (Some (replyWith (js ''2,finance''))) (js ''t'') = classificationFailed
   \<and> classifyNewsByTitle (Some (failWith (RequestFailed []))) (js ''t'') = classificationFailed"
  using classify_first_comma [of "Some (replyWith (js ''1,finance''))" "js ''t''"]
        classify_first_comma [of "Some (replyWith (js ''0,sports''))" "js ''t''"]
        classify_first_comma [of "Some (replyWith (js ''maybe''))" "js ''t''"]
        classify_first_comma [of "Some (replyWith (js ''2,finance''))" "js ''t''"]
        classify_first_comma [of "Some (failWith (RequestFailed []))" "js ''t''"]
  by (simp add: replyWith_def failWith_def cleanThinkingTags_def string_eval)

text \<open>
  When the oracle itself replies with the failure category after the flag \<open>1\<close>, the
  classification keeps the item under the failure category: the category is not checked
  against any vocabulary.
\<close>

theorem keep_with_failure_category_counterexample:
  "shouldSave (classifyNewsByTitle (Some (replyWith (js ''1,'' @ failureCategory))) (js ''t''))
   \<and> category (classifyNewsByTitle (Some (replyWith (js ''1,'' @ failureCategory))) (js ''t''))
       = failureCategory"
  by (simp add: classify_eval string_eval)

text \<open>
  C4 (as amended). If the keep decision is true, the classification did not come from the
  failure path: the oracle replied, the trimmed first segment of the cleaned reply is \<open>1\<close>,
  and the category is the one the oracle supplied (the trimmed segments after the first,
  joined with commas). So the category is the failure category only when the oracle wrote it.
\<close>

theorem keep_implies_oracle_category:
  assumes "shouldSave (classifyNewsByTitle ai newsTitle)"
  shows "\<exists>ask rawResponse.
           ai = Some ask
           \<and> ask (AI_CLASSIFICATION_PROMPT @ newsTitle) aiModel = Inr rawResponse
           \<and> (let parts = map js_trim (js_split comma (cleanThinkingTags rawResponse))
              in 2 \<le> length parts \<and> hd parts = js ''1''
                 \<and> category (classifyNewsByTitle ai newsTitle) = js_join [comma] (tl parts))"
proof (cases ai)
  case None
  with assms show ?thesis
    by (simp add: classifyNewsByTitle_undeployed classificationFailed_def)
next
  case (Some ask)
  show ?thesis
  proof (cases "ask (AI_CLASSIFICATION_PROMPT @ newsTitle) aiModel")
    case (Inl e)
    with assms Some show ?thesis
      by (simp add: classifyNewsByTitle_throw classificationFailed_def)
  next
    case (Inr raw)
    with assms Some show ?thesis
      by (auto simp: classifyNewsByTitle_reply parseResponse_def Let_def classificationFailed_def
               split: if_splits)
  qed
qed

theorem keep_implies_oracle_category_witness:
  "shouldSave (classifyNewsByTitle (Some (replyWith (js ''1,finance''))) (js ''t''))
   \<and> (\<exists>ask rawResponse.
         Some (replyWith (js ''1,finance'')) = Some ask
         \<and> ask (AI_CLASSIFICATION_PROMPT @ js ''t'') aiModel = Inr rawResponse
         \<and> (let parts = map js_trim (js_split comma (cleanThinkingTags rawResponse))
            in 2 \<le> length parts \<and> hd parts = js ''1''
               \<and> category (classifyNewsByTitle (Some (replyWith (js ''1,finance''))) (js ''t''))
                   = js_join [comma] (tl parts)))"
proof -
  have keep: "shouldSave (classifyNewsByTitle (Some (replyWith (js ''1,finance''))) (js ''t''))"
    by (simp add: classify_eval string_eval)
  from keep keep_implies_oracle_category [OF keep] show ?thesis by simp
qed

text \<open>
  C10. The parser trims every comma-separated segment of the cleaned reply before reading
  it, and the category is the trimmed segments after the first, joined with bare commas:
  for a reply made of the segments \<open>segs\<close> whose trimmed first segment is \<open>0\<close> or \<open>1\<close>, the
  keep decision is read from the trimmed first segment and the whitespace around the
  commas inside the category is removed.
\<close>

theorem parser_trims_segments:
  assumes "ask (AI_CLASSIFICATION_PROMPT @ newsTitle) aiModel = Inr rawResponse"
    and "cleanThinkingTags rawResponse = js_join [comma] segs"
    and "\<forall>s \<in> set segs. comma \<notin> set s"
    and "2 \<le> length segs"
    and "js_trim (hd segs) = js ''0'' \<or> js_trim (hd segs) = js ''1''"
  shows "classifyNewsByTitle (Some ask) newsTitle =
           \<lparr>shouldSave = (js_trim (hd segs) = js ''1''),
            category = js_join [comma] (map js_trim (tl segs))\<rparr>"
proof -
  from assms(4) have "segs \<noteq> []" by auto
  with assms(3) have "js_split comma (js_join [comma] segs) = segs" by (simp add: js_split_join)
  from parseResponse_segments[OF this assms(4)] assms(1,2,5) show ?thesis
    by (auto simp: classifyNewsByTitle_reply)
qed

theorem parser_trims_segments_witness:
  "classifyNewsByTitle (Some (replyWith (js '' 1 , finance ''))) (js ''t'')
     = \<lparr>shouldSave = True, category = js ''finance''\<rparr>
   \<and> classifyNewsByTitle (Some (replyWith (js ''1, a , b''))) (js ''t'')
     = \<lparr>shouldSave = True, category = js ''a,b''\<rparr>"
proof -
  have a: "classifyNewsByTitle (Some (replyWith (js '' 1 , finance ''))) (js ''t'')
     = \<lparr>shouldSave = (js_trim (hd [js ''1 '', js '' finance'']) = js ''1''),
        category = js_join [comma] (map js_trim (tl [js ''1 '', js '' finance'']))\<rparr>"
    by (rule parser_trims_segments [where rawResponse = "js '' 1 , finance ''"])
       (simp_all add: replyWith_def cleanThinkingTags_def string_eval)
  have b: "classifyNewsByTitle (Some (replyWith (js ''1, a , b''))) (js ''t'')
     = \<lparr>shouldSave = (js_trim (hd [js ''1'', js '' a '', js '' b'']) = js ''1''),
        category = js_join [comma] (map js_trim (tl [js ''1'', js '' a '', js '' b'']))\<rparr>"
    by (rule parser_trims_segments [where rawResponse = "js ''1, a , b''"])
       (simp_all add: replyWith_def cleanThinkingTags_def string_eval)
  from a b show ?thesis by (simp add: string_eval)
qed

subsection \<open>The summarizer\<close>

text \<open>
  C7. When the oracle call of the summarizer throws, the exception is caught and
  \<open>summarizeContent\<close> returns the content it was given, unchanged; the classifier under a
  throwing oracle returns the failure classification instead (keep is false).
\<close>

theorem summarize_fails_open:
  assumes "ask (AI_SUMMARIZATION_PROMPT @ content) aiModel = Inl e"
  shows "summarizeTry (Some ask) content = Inl e
         \<and> summarizeContent (Some ask) content = content
         \<and> (ask (AI_CLASSIFICATION_PROMPT @ newsTitle) aiModel = Inl e'
              \<longrightarrow> classifyNewsByTitle (Some ask) newsTitle = classificationFailed)"
  using assms by (simp add: summarizeContent_def summarizeTry_def classifyNewsByTitle_throw)

theorem summarize_fails_open_witness:
  "failWith (RequestFailed []) (AI_SUMMARIZATION_PROMPT @ js ''long article'') aiModel
     = Inl (RequestFailed [])
   \<and> summarizeContent (Some (failWith (RequestFailed []))) (js ''long article'')
       = js ''long article''
   \<and> \<not> shouldSave (classifyNewsByTitle (Some (failWith (RequestFailed []))) (js ''t''))"
proof -
  have h: "failWith (RequestFailed []) (AI_SUMMARIZATION_PROMPT @ js ''long article'') aiModel
             = Inl (RequestFailed [])"
    by (simp add: failWith_def)
  have h': "failWith (RequestFailed []) (AI_CLASSIFICATION_PROMPT @ js ''t'') aiModel
             = Inl (RequestFailed [])"
    by (simp add: failWith_def)
  from summarize_fails_open
         [of "failWith (RequestFailed [])" "js ''long article''" "RequestFailed []"
             "js ''t''" "RequestFailed []"] h h'
  show ?thesis by (simp add: classificationFailed_def)
qed

subsection \<open>The body fallback of the detail-page extractor\<close>

text \<open>
  Whatever the expression of line 690 captures consists of backslashes and the letter s
  only, so it never captures the content of an ordinary body element.
\<close>

lemma bodyMatchAt_class: "bodyMatchAt s = Some g \<Longrightarrow> \<forall>c \<in> set g. bodyClass c"
  by (auto simp: bodyMatchAt_def split: if_splits list.splits dest: set_takeWhileD)

lemma bodyMatch_class: "bodyMatch html = Some g \<Longrightarrow> \<forall>c \<in> set g. bodyClass c"
  by (induction html) (auto split: option.splits dest: bodyMatchAt_class)

lemma bodyFallback_whole_or_class:
  "bodyFallback html [] = html \<or> (\<forall>c \<in> set (bodyFallback html []). bodyClass c)"
  by (auto simp: bodyFallback_def split: option.splits dest: bodyMatch_class)

lemma samplePage_no_body_match: "bodyMatch samplePage = None"
  by (simp add: samplePage_def bodyMatchAt_def string_eval)

lemma samplePage_not_its_body: "samplePage \<noteq> samplePageBody"
  by (simp add: samplePage_def samplePageBody_def js_def)

text \<open>
  C6. The specification says: when no selector yields an accepted fragment, the extractor takes the
  content of the body element when the page has a body tag, and the whole document only
  when it has none. On the page \<open>samplePage\<close>, which has a body element, no selector finds
  anything, the expression of line 690 does not match, and the fragment chosen is the whole
  document, head included, not the content of the body element.
\<close>

theorem body_fallback_takes_whole_document:
  "trySelectors noElementFound samplePage defaultSelectors = []
   \<and> selectContent noElementFound [] samplePage = samplePage
   \<and> selectContent noElementFound [] samplePage \<noteq> samplePageBody"
  by (simp add: selectContent_def bodyFallback_def defaultSelectors_def noElementFound_def
        samplePage_no_body_match samplePage_not_its_body)

subsection \<open>Persistence\<close>

lemma filesByName_setContentOfFirst:
  "filesByName (setContentOfFirst k c folder) k' =
     (if k' = k then (case filesByName folder k of [] \<Rightarrow> [] | f # fs \<Rightarrow> (k, c) # fs)
      else filesByName folder k')"
  by (induction folder) (auto simp: filesByName_def)

lemma length_setContentOfFirst [simp]: "length (setContentOfFirst k c folder) = length folder"
  by (induction folder) auto

lemma saveOrUpdateFile_ok:
  assumes "saveOrUpdateFile th folder k c = (True, folder')"
  shows "filesByName folder' k = (k, c) # tl (filesByName folder k)"
    and "k' \<noteq> k \<Longrightarrow> filesByName folder' k' = filesByName folder k'"
    and "filesByName folder k \<noteq> [] \<Longrightarrow> length folder' = length folder"
  using assms
  by (auto simp: saveOrUpdateFile_def filesByName_setContentOfFirst split: if_splits list.splits)
     (auto simp: filesByName_def)

lemma saveNewsToDrive_ok:
  assumes "saveNewsToDrive d th folder t c = (True, folder')"
  shows "saveOrUpdateFile th folder (safeFileName t 100 @ js ''.txt'') c = (True, folder')"
  using assms by (auto simp: saveNewsToDrive_def Let_def split: if_splits)

text \<open>
  C8. Two saves whose titles derive the same file name, both successful: the second save
  adds no file, and the files under that name are the second content followed by whatever
  further files of that name the folder held before (Drive allows them). In a folder with
  at most one file of that name at the start, as every folder filled by this operation is,
  exactly one file of that name is stored and its content is the second one.
\<close>

theorem save_same_key_overwrites:
  assumes "safeFileName t1 100 = safeFileName t2 100"
    and "saveNewsToDrive d1 th1 folder t1 c1 = (True, folder1)"
    and "saveNewsToDrive d2 th2 folder1 t2 c2 = (True, folder2)"
  shows "filesByName folder2 (safeFileName t2 100 @ js ''.txt'')
           = (safeFileName t2 100 @ js ''.txt'', c2)
               # tl (filesByName folder (safeFileName t2 100 @ js ''.txt''))
         \<and> length folder2 = length folder1
         \<and> (length (filesByName folder (safeFileName t2 100 @ js ''.txt'')) \<le> 1 \<longrightarrow>
              filesByName folder2 (safeFileName t2 100 @ js ''.txt'')
                = [(safeFileName t2 100 @ js ''.txt'', c2)])"
proof -
  let ?k = "safeFileName t2 100 @ js ''.txt''"
  have s1: "saveOrUpdateFile th1 folder ?k c1 = (True, folder1)"
    using saveNewsToDrive_ok[OF assms(2)] assms(1) by simp
  have s2: "saveOrUpdateFile th2 folder1 ?k c2 = (True, folder2)"
    using saveNewsToDrive_ok[OF assms(3)] by simp
  have f1: "filesByName folder1 ?k = (?k, c1) # tl (filesByName folder ?k)"
    by (rule saveOrUpdateFile_ok(1)[OF s1])
  have f2: "filesByName folder2 ?k = (?k, c2) # tl (filesByName folder1 ?k)"
    by (rule saveOrUpdateFile_ok(1)[OF s2])
  have len: "length folder2 = length folder1"
    using saveOrUpdateFile_ok(3)[OF s2] f1 by simp
  have one: "length (filesByName folder ?k) \<le> 1 \<Longrightarrow> tl (filesByName folder ?k) = []"
    by (cases "filesByName folder ?k") auto
  from f1 f2 len one show ?thesis by simp
qed

theorem save_same_key_overwrites_witness:
  "safeFileName (js ''a/b'') 100 = safeFileName (js ''ab'') 100
   \<and> saveNewsToDrive True False [] (js ''a/b'') (js ''first'')
       = (True, [(js ''ab.txt'', js ''first'')])
   \<and> saveNewsToDrive True False [(js ''ab.txt'', js ''first'')] (js ''ab'') (js ''second'')
       = (True, [(js ''ab.txt'', js ''second'')])
   \<and> filesByName [(js ''ab.txt'', js ''second'')] (js ''ab.txt'')
       = [(js ''ab.txt'', js ''second'')]"
proof -
  have k: "safeFileName (js ''a/b'') 100 = safeFileName (js ''ab'') 100"
    by (simp add: safeFileName_def illegalChar_def string_eval)
  have k2: "safeFileName (js ''ab'') 100 @ js ''.txt'' = js ''ab.txt''"
    by (simp add: safeFileName_def illegalChar_def string_eval)
  have s1: "saveNewsToDrive True False [] (js ''a/b'') (js ''first'')
              = (True, [(js ''ab.txt'', js ''first'')])"
    by (simp add: saveNewsToDrive_def saveOrUpdateFile_def filesByName_def safeFileName_def
          illegalChar_def string_eval)
  have s2: "saveNewsToDrive True False [(js ''ab.txt'', js ''first'')] (js ''ab'') (js ''second'')
              = (True, [(js ''ab.txt'', js ''second'')])"
    by (simp add: saveNewsToDrive_def saveOrUpdateFile_def filesByName_def safeFileName_def
          illegalChar_def string_eval)
  have e: "length (filesByName [] (safeFileName (js ''ab'') 100 @ js ''.txt'')) \<le> 1"
    by (simp add: filesByName_def)
  from save_same_key_overwrites [OF k s1 s2] e k k2 s1 s2 show ?thesis
    by (simp add: filesByName_def)
qed

subsection \<open>The footer scrubber\<close>

text \<open>
  A marker that a line contains is still there after the line is trimmed and freed of the
  end token: a marker neither starts nor ends with white space and shares no code unit with
  the end token.
\<close>

lemma sublist_dropWhile:
  assumes "sublist k s" and "k \<noteq> []" and "\<not> P (hd k)"
  shows "sublist k (dropWhile P s)"
proof -
  from assms(1) obtain ps ss where s: "s = ps @ k @ ss" by (auto simp: sublist_def)
  from assms(2,3) have k: "dropWhile P (k @ ss) = k @ ss" by (cases k) auto
  show ?thesis
  proof (cases "\<forall>x \<in> set ps. P x")
    case True
    then have "dropWhile P s = k @ ss" using s k by (simp add: dropWhile_append2)
    then show ?thesis by (auto simp: sublist_def intro: exI[of _ "[]"])
  next
    case False
    then have "dropWhile P s = dropWhile P ps @ k @ ss" using s by (auto simp: dropWhile_append1)
    then show ?thesis by (auto simp: sublist_def)
  qed
qed

lemma sublist_js_trim:
  assumes "sublist k s" and "k \<noteq> []" and "\<not> isTrimSpace (hd k)" and "\<not> isTrimSpace (last k)"
  shows "sublist k (js_trim s)"
proof -
  have a: "sublist k (dropWhile isTrimSpace s)"
    using assms(1-3) by (rule sublist_dropWhile)
  then have "sublist (rev k) (rev (dropWhile isTrimSpace s))" by (simp add: sublist_rev)
  moreover have "rev k \<noteq> []" using assms(2) by simp
  moreover have "\<not> isTrimSpace (hd (rev k))" using assms(2,4) by (simp add: hd_rev)
  ultimately have "sublist (rev k) (dropWhile isTrimSpace (rev (dropWhile isTrimSpace s)))"
    by (rule sublist_dropWhile)
  then show ?thesis unfolding js_trim_def by (simp add: sublist_rev_left)
qed

lemma prefix_js_removeAll:
  "prefix k s \<Longrightarrow> set k \<inter> set pat = {} \<Longrightarrow> prefix k (js_removeAll pat s)"
proof (induction k arbitrary: s)
  case Nil then show ?case by simp
next
  case (Cons a k)
  then obtain s' where s: "s = a # s'" and p: "prefix k s'" by (cases s) auto
  have "\<not> (pat \<noteq> [] \<and> prefix pat (a # s'))"
  proof
    assume h: "pat \<noteq> [] \<and> prefix pat (a # s')"
    then obtain q qs where "pat = q # qs" by (cases pat) auto
    with h have "a \<in> set pat" by auto
    with Cons.prems(2) show False by auto
  qed
  with s p Cons show ?case by auto
qed

lemma sublist_js_removeAll:
  "sublist k s \<Longrightarrow> k \<noteq> [] \<Longrightarrow> set k \<inter> set pat = {} \<Longrightarrow> sublist k (js_removeAll pat s)"
proof (induction pat s rule: js_removeAll.induct)
  case (1 pat)
  then show ?case by simp
next
  case (2 pat c cs)
  show ?case
  proof (cases "pat \<noteq> [] \<and> prefix pat (c # cs)")
    case True
    then obtain rest where rest: "c # cs = pat @ rest" by (auto simp: prefix_def)
    from "2.prems"(1) obtain ps ss where ps: "c # cs = ps @ k @ ss" by (auto simp: sublist_def)
    have "length pat \<le> length ps"
    proof (rule ccontr)
      assume "\<not> length pat \<le> length ps"
      then have lt: "length ps < length pat" by simp
      have "(c # cs) ! length ps = hd k" using ps "2.prems"(2) by (cases k) (auto simp: nth_append)
      moreover have "(c # cs) ! length ps = pat ! length ps" using rest lt by (simp add: nth_append)
      ultimately have "hd k \<in> set pat" using lt by (metis nth_mem)
      moreover have "hd k \<in> set k" using "2.prems"(2) by simp
      ultimately show False using "2.prems"(3) by auto
    qed
    then have "drop (length pat) (c # cs) = drop (length pat) ps @ k @ ss"
      using ps by simp
    then have "sublist k (drop (length pat) (c # cs))" by (auto simp: sublist_def)
    with True "2.IH"(1) "2.prems" show ?thesis by simp
  next
    case False
    from "2.prems"(1) have "prefix k (c # cs) \<or> sublist k cs"
      by (simp add: sublist_Cons_right)
    then show ?thesis
    proof
      assume "prefix k (c # cs)"
      then have "prefix k (js_removeAll pat (c # cs))" using "2.prems"(3) by (rule prefix_js_removeAll)
      then show ?thesis by (rule prefix_imp_sublist)
    next
      assume "sublist k cs"
      with False "2.IH"(2) "2.prems" have "sublist k (js_removeAll pat cs)" by simp
      moreover have "js_removeAll pat (c # cs) = c # js_removeAll pat cs"
        using False by auto
      ultimately show ?thesis by (simp add: sublist_Cons_right)
    qed
  qed
qed

lemma keyword_shape:
  assumes "k \<in> set keywordsToRemove"
  shows "k \<noteq> []" and "\<not> isTrimSpace (hd k)" and "\<not> isTrimSpace (last k)"
    and "set k \<inter> set endMarker = {}"
  using assms by (auto simp: keywordsToRemove_def isTrimSpace_def endMarker_def)

lemma js_includes_processLine:
  assumes "k \<in> set keywordsToRemove" and "js_includes line k"
  shows "js_includes (processLine line) k"
proof -
  note ks = keyword_shape[OF assms(1)]
  from assms(2) have "sublist k line" by (simp add: js_includes_def)
  then have t: "sublist k (js_trim line)" using ks(1-3) by (rule sublist_js_trim)
  then have "sublist k (js_removeAll endMarker (js_trim line))"
    using ks(1,4) by (rule sublist_js_removeAll)
  then have "sublist k (js_trim (js_removeAll endMarker (js_trim line)))"
    using ks(1-3) by (rule sublist_js_trim)
  with t show ?thesis by (simp add: processLine_def js_includes_def Let_def)
qed

lemma keepLine_processLine: "\<not> keepLine line \<Longrightarrow> \<not> keepLine (processLine line)"
  by (auto simp: keepLine_def list_ex_iff dest: js_includes_processLine)

lemma filter_keepLine_processLine:
  "filter keepLine (map processLine (filter keepLine ls)) = filter keepLine (map processLine ls)"
  by (induction ls) (auto dest: keepLine_processLine)

lemma footerResultLines_window:
  "footerResultLines lines =
     take (length lines - 11) lines
       @ filter keepLine (map processLine (drop (length lines - 11) lines))"
proof -
  have "nat (max 0 (int (length lines) - int linesToCheck - 1)) = length lines - 11"
    by (simp add: linesToCheck_def)
  then show ?thesis by (simp add: footerResultLines_def Let_def)
qed

text \<open>
  C5 (as amended). For every text that is not blank, with \<open>n\<close> lines: the output is the
  trimmed re-join of (1) the lines before the eleventh from the end, unchanged, (2) at
  most one line standing for the eleventh from the end, about which nothing is said,
  and (3) of the last ten lines those that contain no marker, each trimmed and freed of
  the end token (and dropped if a marker shows up only then). So a marker on the fifth
  line from the end drops that line and a marker fifteen lines from the end stays; only
  the trim of the whole result can touch the text before the window.
\<close>

theorem footer_scrub_window:
  assumes "js_trim content \<noteq> []"
  shows "let lines = js_split newline content; n = length lines in
         \<exists>X. length X \<le> 1 \<and>
           cleanFooterContent content =
             js_trim (js_join [newline]
               (take (n - 11) lines @ X
                  @ filter keepLine (map processLine (filter keepLine (drop (n - 10) lines)))))"
proof -
  let ?lines = "js_split newline content"
  let ?n = "length ?lines"
  let ?tail = "filter keepLine (map processLine (filter keepLine (drop (?n - 10) ?lines)))"
  from assms have ne: "content \<noteq> []" by (auto simp: js_trim_def)
  have cf: "cleanFooterContent content = js_trim (js_join [newline] (footerResultLines ?lines))"
    using assms ne by (simp add: cleanFooterContent_def Let_def)
  have "\<exists>X. length X \<le> 1 \<and>
          filter keepLine (map processLine (drop (?n - 11) ?lines)) = X @ ?tail"
  proof (cases "11 \<le> ?n")
    case True
    then have lt: "?n - 11 < ?n" by simp
    have "Suc (?n - 11) = ?n - 10" using True by simp
    with Cons_nth_drop_Suc[OF lt]
    have "drop (?n - 11) ?lines = ?lines ! (?n - 11) # drop (?n - 10) ?lines" by simp
    then have "filter keepLine (map processLine (drop (?n - 11) ?lines))
                 = filter keepLine [processLine (?lines ! (?n - 11))] @ ?tail"
      by (simp add: filter_keepLine_processLine)
    moreover have "length (filter keepLine [processLine (?lines ! (?n - 11))]) \<le> 1" by simp
    ultimately show ?thesis by blast
  next
    case False
    then have "?n - 11 = 0" and "?n - 10 = 0" by simp_all
    then have "filter keepLine (map processLine (drop (?n - 11) ?lines)) = [] @ ?tail"
      by (simp add: filter_keepLine_processLine)
    then show ?thesis by (intro exI[of _ "[]"]) simp
  qed
  then obtain X where "length X \<le> 1"
    and "filter keepLine (map processLine (drop (?n - 11) ?lines)) = X @ ?tail" by blast
  with cf show ?thesis
    unfolding Let_def footerResultLines_window by (intro exI[of _ X]) simp
qed


lemmas footer_eval =
  cleanFooterContent_def footerResultLines_def processLine_def keepLine_def
  keywordsToRemove_def endMarker_def linesToCheck_def js_includes_def sublist_code

lemma leadingSpaceDocument_scrubbed:
  "cleanFooterContent leadingSpaceDocument =
     js_join [newline]
       [js ''a'', js ''b'', js ''c'', js ''d'', js ''e'', js ''f'', js ''g'', js ''h'',
        js ''i'', js ''j'', js ''k'', js ''l'', js ''m'']"
  by (simp add: leadingSpaceDocument_def footer_eval string_eval)

lemma markerOnEleventhDocument_scrubbed:
  "cleanFooterContent markerOnEleventhDocument =
     js_join [newline]
       [js ''a'', js ''c'', js ''d'', js ''e'', js ''f'', js ''g'', js ''h'',
        js ''i'', js ''j'', js ''k'', js ''l'']"
  by (simp add: markerOnEleventhDocument_def footer_eval string_eval)

lemma twoMarkersDocument_scrubbed:
  "cleanFooterContent twoMarkersDocument =
     js_join [newline]
       [js ''a'', [0x8BB0, 0x8005], js ''c'', js ''d'', js ''e'', js ''f'', js ''g'', js ''h'',
        js ''i'', js ''j'', js ''k'', js ''m'', js ''n'', js ''o'', js ''p'']"
  by (simp add: twoMarkersDocument_def footer_eval string_eval)

text \<open>
  The statement as worded fails on two documents. In the first, of 13 lines, the first line
  starts with two spaces, which the final trim of the whole result removes. In the second,
  of 12 lines, the eleventh line from the end holds a marker and is dropped: the window of
  line 739 starts at \<open>lines.length - 11\<close>, so it has eleven lines.
\<close>

theorem footer_scrub_counterexample:
  "\<not> headLinesUnchanged_spec leadingSpaceDocument
   \<and> \<not> headLinesUnchanged_spec markerOnEleventhDocument"
  unfolding headLinesUnchanged_spec_def leadingSpaceDocument_scrubbed
    markerOnEleventhDocument_scrubbed
  by (simp add: leadingSpaceDocument_def markerOnEleventhDocument_def string_eval)

theorem footer_scrub_window_witness:
  "js_trim twoMarkersDocument \<noteq> []
   \<and> length (js_split newline twoMarkersDocument) = 16
   \<and> js_split newline twoMarkersDocument ! (16 - 15) = [0x8BB0, 0x8005]
   \<and> js_split newline twoMarkersDocument ! (16 - 5) = [0x76D1, 0x5236, 0x78]
   \<and> cleanFooterContent twoMarkersDocument =
       js_join [newline]
         [js ''a'', [0x8BB0, 0x8005], js ''c'', js ''d'', js ''e'', js ''f'', js ''g'', js ''h'',
          js ''i'', js ''j'', js ''k'', js ''m'', js ''n'', js ''o'', js ''p'']
   \<and> (let lines = js_split newline twoMarkersDocument; n = length lines in
        \<exists>X. length X \<le> 1 \<and>
          cleanFooterContent twoMarkersDocument =
            js_trim (js_join [newline]
              (take (n - 11) lines @ X
                 @ filter keepLine (map processLine (filter keepLine (drop (n - 10) lines))))))"
proof -
  have ne: "js_trim twoMarkersDocument \<noteq> []"
    by (simp add: twoMarkersDocument_def string_eval)
  have sp: "js_split newline twoMarkersDocument =
     [js ''a'', [0x8BB0, 0x8005], js ''c'', js ''d'', js ''e'', js ''f'', js ''g'', js ''h'',
      js ''i'', js ''j'', js ''k'', [0x76D1, 0x5236, 0x78], js ''m'', js ''n'', js ''o'',
      js ''p'']"
    by (simp add: twoMarkersDocument_def string_eval)
  have len: "length (js_split newline twoMarkersDocument) = 16"
    and l15: "js_split newline twoMarkersDocument ! (16 - 15) = [0x8BB0, 0x8005]"
    and l5: "js_split newline twoMarkersDocument ! (16 - 5) = [0x76D1, 0x5236, 0x78]"
    unfolding sp by simp_all
  note w = footer_scrub_window [OF ne]
  from ne len l15 l5 twoMarkersDocument_scrubbed w show ?thesis
    by (intro conjI)
qed

subsection \<open>The orchestrator\<close>

lemma isl_processEntryTry:
  "isl (processEntryTry sv feed s entry r) \<longleftrightarrow>
     shouldSave (classifyNewsByTitle (utilsAI sv s) (title entry))
     \<and> isl (extractNewsContent sv s entry feed)"
  by (auto simp: processEntryTry_def Let_def split: sum.splits prod.splits)

lemma processEntryTry_counters:
  assumes "processEntryTry sv feed s entry r = Inr r'"
  shows "totalProcessed r' = totalProcessed r" and "totalErrors r' = totalErrors r"
  using assms
  by (auto simp: processEntryTry_def Let_def split: sum.splits prod.splits if_splits)

lemma processEntry_totalProcessed:
  "totalProcessed (processEntry sv feed fi r (i, e)) =
     totalProcessed r + (if validTitle e then 1 else 0)"
  by (auto simp: processEntry_def Let_def split: sum.splits dest: processEntryTry_counters)

lemma processEntry_totalErrors:
  "totalErrors (processEntry sv feed fi r (i, e)) =
     totalErrors r + (if entryRaises sv feed (fi, i) e then 1 else 0)"
proof (cases "validTitle e")
  case False
  then show ?thesis by (simp add: processEntry_def entryRaises_def)
next
  case True
  let ?r1 = "r\<lparr>totalProcessed := totalProcessed r + 1\<rparr>"
  show ?thesis
  proof (cases "processEntryTry sv feed (fi, i) e ?r1")
    case (Inl err)
    then have "isl (processEntryTry sv feed (fi, i) e ?r1)" by simp
    then have "entryRaises sv feed (fi, i) e"
      using True by (simp add: isl_processEntryTry entryRaises_def)
    with True Inl show ?thesis by (simp add: processEntry_def Let_def)
  next
    case (Inr r2)
    then have "\<not> isl (processEntryTry sv feed (fi, i) e ?r1)" by simp
    then have "\<not> entryRaises sv feed (fi, i) e"
      by (simp add: isl_processEntryTry entryRaises_def)
    with True Inr processEntryTry_counters(2)[OF Inr] show ?thesis
      by (simp add: processEntry_def Let_def)
  qed
qed

lemma entries_totalProcessed:
  "totalProcessed (foldl (processEntry sv feed fi) r (enumerate k es)) =
     totalProcessed r + length (filter validTitle es)"
  by (induction es arbitrary: r k) (simp_all add: processEntry_totalProcessed)

lemma entries_totalErrors:
  "totalErrors (foldl (processEntry sv feed fi) r (enumerate k es)) =
     totalErrors r
       + length (filter (\<lambda>(i, e). entryRaises sv feed (fi, i) e) (enumerate k es))"
  by (induction es arbitrary: r k) (simp_all add: processEntry_totalErrors)

lemma processFeed_totalProcessed:
  "totalProcessed (processFeed sv r (fi, feed)) =
     totalProcessed r + length (filter validTitle (limitedEntriesOf sv fi feed))"
  by (simp add: processFeed_def limitedEntriesOf_def Let_def entries_totalProcessed
           split: sum.splits)

lemma processFeed_totalErrors:
  "totalErrors (processFeed sv r (fi, feed)) =
     totalErrors r + (if feedRaises sv fi feed then 1 else 0)
       + length (filter (\<lambda>(i, e). entryRaises sv feed (fi, i) e)
                   (enumerate 0 (limitedEntriesOf sv fi feed)))"
  by (simp add: processFeed_def limitedEntriesOf_def feedRaises_def Let_def entries_totalErrors
           split: sum.splits)

lemma feeds_totalProcessed:
  "totalProcessed (foldl (processFeed sv) r (enumerate k feeds)) =
     totalProcessed r
       + (\<Sum>(fi, feed) \<leftarrow> enumerate k feeds.
            length (filter validTitle (limitedEntriesOf sv fi feed)))"
  by (induction feeds arbitrary: r k) (simp_all add: processFeed_totalProcessed)

lemma feeds_totalErrors:
  "totalErrors (foldl (processFeed sv) r (enumerate k feeds)) =
     totalErrors r
       + length (filter (\<lambda>(fi, feed). feedRaises sv fi feed) (enumerate k feeds))
       + (\<Sum>(fi, feed) \<leftarrow> enumerate k feeds.
            length (filter (\<lambda>(i, e). entryRaises sv feed (fi, i) e)
                      (enumerate 0 (limitedEntriesOf sv fi feed))))"
  by (induction feeds arbitrary: r k) (simp_all add: processFeed_totalErrors)

text \<open>
  C9. A group run over any feeds and items runs to its end and visits everything: every
  entry with a title, of every feed whose fetch did not raise, is counted as processed,
  whether or not entries before it raised; the errors counted are exactly the feeds that
  raised plus the entries whose processing raised. An exception of one item or one feed
  therefore stops neither the entries after it nor the feeds after it.
\<close>

theorem group_run_isolates_failures:
  assumes "targetFeeds = filter (\<lambda>feed. processGroup feed = groupNumber) RSS_FEEDS"
    and "targetFeeds \<noteq> []"
  shows "\<exists>r'. processNewsFeedsByGroup sv RSS_FEEDS groupNumber (Some folder) = Some r'
           \<and> totalProcessed r' =
               (\<Sum>(fi, feed) \<leftarrow> enumerate 0 targetFeeds.
                  length (filter validTitle (limitedEntriesOf sv fi feed)))
           \<and> totalErrors r' =
               length (filter (\<lambda>(fi, feed). feedRaises sv fi feed) (enumerate 0 targetFeeds))
               + (\<Sum>(fi, feed) \<leftarrow> enumerate 0 targetFeeds.
                    length (filter (\<lambda>(i, e). entryRaises sv feed (fi, i) e)
                              (enumerate 0 (limitedEntriesOf sv fi feed))))"
  using assms
  by (simp add: processNewsFeedsByGroup_def Let_def feeds_totalProcessed feeds_totalErrors
        initialRun_def)

subsection \<open>The length gate\<close>

lemma saveOrUpdateFile_stores:
  assumes "saveOrUpdateFile th folder k c = (True, folder')"
  shows "(k, c) \<in> set folder'"
proof -
  have "(k, c) \<in> set (filesByName folder' k)"
    using saveOrUpdateFile_ok(1)[OF assms] by simp
  then show ?thesis by (simp add: filesByName_def)
qed

lemma saveNewsToDrive_stores:
  assumes "saveNewsToDrive d th folder t c = (True, folder')"
  shows "(safeFileName t 100 @ js ''.txt'', c) \<in> set folder'"
  using saveOrUpdateFile_stores[OF saveNewsToDrive_ok[OF assms]] .

lemma summarizeContent_cases:
  "summarizeContent (utilsAI sv s) body =
     (if utilsAIDeployed sv then
        (case askGroq sv s (AI_SUMMARIZATION_PROMPT @ body) aiModel of
           Inl e \<Rightarrow> body
         | Inr rawResponse \<Rightarrow> cleanThinkingTags rawResponse)
      else body)"
  by (simp add: summarizeContent_def summarizeTry_def utilsAI_def split: sum.splits)

text \<open>
  C1. An entry that passes classification and whose extracted body is longer than
  \<open>maxContentLength\<close> (500): the final body is what \<open>summarizeContent\<close> returns, that is
  the body itself when the oracle call fails (or the oracle is not deployed) and the
  cleaned reply when it succeeds, and \<open>isAISummarized\<close> is true in both cases. Unless that
  final body is shorter than \<open>minContentLength\<close>, the record handed to the save is formatted
  from it with the flag true, and it is in the folder when the save succeeds.
\<close>

theorem long_kept_body_is_condensed:
  assumes "validTitle entry"
    and "shouldSave (classifyNewsByTitle (utilsAI sv (fi, index)) (title entry))"
    and "extractNewsContent sv (fi, index) entry feed = Inr body"
    and "maxContentLength < length body"
  shows "let s = (fi, index);
             classification = classifyNewsByTitle (utilsAI sv s) (title entry);
             finalBody =
               (if utilsAIDeployed sv then
                  (case askGroq sv s (AI_SUMMARIZATION_PROMPT @ body) aiModel of
                     Inl e \<Rightarrow> body
                   | Inr rawResponse \<Rightarrow> cleanThinkingTags rawResponse)
                else body);
             newsRecord = formatNewsContent (name feed) (category classification)
                            (title entry) finalBody True;
             r' = processEntry sv feed fi r (index, entry)
         in condense (utilsAI sv s) body = (finalBody, True)
            \<and> (if length finalBody < minContentLength
               then r' = r\<lparr>totalProcessed := totalProcessed r + 1\<rparr>
               else (case saveNewsToDrive (driveDeployed sv) (driveThrows sv s) (newsFolder r)
                            (title entry) newsRecord of
                       (saved, folder') \<Rightarrow>
                         r' = r\<lparr>totalProcessed := totalProcessed r + 1,
                                newsFolder := folder',
                                totalSaved := (if saved then totalSaved r + 1 else totalSaved r)\<rparr>
                         \<and> (saved \<longrightarrow>
                              (safeFileName (title entry) 100 @ js ''.txt'', newsRecord)
                                \<in> set folder')))"
proof -
  let ?s = "(fi, index)"
  let ?fb = "summarizeContent (utilsAI sv ?s) body"
  have c: "condense (utilsAI sv ?s) body = (?fb, True)"
    using assms(4) by (simp add: condense_def)
  have stores: "\<And>d th f t c folder'. saveNewsToDrive d th f t c = (True, folder') \<Longrightarrow>
                  (safeFileName t 100 @ js ''.txt'', c) \<in> set folder'"
    by (rule saveNewsToDrive_stores)
  show ?thesis
    using assms(1-3) c
    unfolding Let_def summarizeContent_cases[symmetric]
    by (auto simp: processEntry_def processEntryTry_def Let_def
             split: prod.splits dest: stores)
qed

text \<open>
  C2. An entry whose final body (after the optional summarization) is shorter than
  \<open>minContentLength\<close> (30): nothing is saved, and the item is a plain skip, whatever the
  classification says. The run state changes only in \<open>totalProcessed\<close> (and, for a discarded
  classification, in the skip line of the log): the folder, \<open>totalSaved\<close> and \<open>totalErrors\<close>
  stay as they were and no error is logged.
\<close>

theorem short_body_is_skipped_silently:
  assumes "validTitle entry"
    and "extractNewsContent sv (fi, index) entry feed = Inr body"
    and "length (fst (condense (utilsAI sv (fi, index)) body)) < minContentLength"
  shows "let classification = classifyNewsByTitle (utilsAI sv (fi, index)) (title entry);
             r' = processEntry sv feed fi r (index, entry)
         in r' = (if shouldSave classification
                  then r\<lparr>totalProcessed := totalProcessed r + 1\<rparr>
                  else r\<lparr>totalProcessed := totalProcessed r + 1,
                         log := log r @ [SkipNews (title entry) (category classification)]\<rparr>)
            \<and> newsFolder r' = newsFolder r
            \<and> totalSaved r' = totalSaved r
            \<and> totalErrors r' = totalErrors r"
  using assms
  by (auto simp: processEntry_def processEntryTry_def Let_def split: prod.splits)

subsection \<open>The sample run\<close>

lemma sampleOracle_classify:
  "sampleOracle (AI_CLASSIFICATION_PROMPT @ t) m = Inr (js ''1,finance'')"
  by (simp add: sampleOracle_def AI_CLASSIFICATION_PROMPT_def)

lemma sampleOracle_summarize:
  "sampleOracle (AI_SUMMARIZATION_PROMPT @ b) m = Inr sampleSummary"
  by (simp add: sampleOracle_def AI_CLASSIFICATION_PROMPT_def AI_SUMMARIZATION_PROMPT_def)

lemma sampleServices_fields:
  "utilsAIDeployed sampleServices = True" "askGroq sampleServices s = sampleOracle"
  "driveDeployed sampleServices = True" "driveThrows sampleServices s = False"
  by (simp_all add: sampleServices_def)

lemma sample_classification:
  "classifyNewsByTitle (utilsAI sampleServices s) t
     = \<lparr>shouldSave = True, category = js ''finance''\<rparr>"
proof -
  have "parseResponse (cleanThinkingTags (js ''1,finance''))
          = Inr \<lparr>shouldSave = True, category = js ''finance''\<rparr>"
    by (simp add: parseResponse_def cleanThinkingTags_def string_eval)
  then show ?thesis
    by (simp add: utilsAI_def sampleServices_def
          classifyNewsByTitle_reply[of sampleOracle t "js ''1,finance''", OF sampleOracle_classify])
qed

lemma sampleSummary_clean: "cleanThinkingTags sampleSummary = sampleSummary"
  by (simp add: cleanThinkingTags_def sampleSummary_def string_eval)

lemma sample_summary:
  "summarizeContent (utilsAI sampleServices s) b = sampleSummary"
  by (simp add: summarizeContent_cases sampleServices_def sampleOracle_summarize
        sampleSummary_clean)

lemma sample_lengths:
  "length sampleSummary = 41" "length sampleArticle = 42"
  by (simp_all add: sampleSummary_def sampleArticle_def js_def)

lemma sample_titles:
  "validTitle (sampleEntry ''first'')" "\<not> validTitle (sampleEntry [])"
  "validTitle (sampleEntry ''third'')" "validTitle (sampleEntry ''fourth'')"
  "validTitle (sampleEntry ''fifth'')"
  by (simp_all add: validTitle_def sampleEntry_def string_eval)

lemma sample_file_names:
  "safeFileName (js ''third'') 100 @ js ''.txt'' = js ''third.txt''"
  "safeFileName (js ''fourth'') 100 @ js ''.txt'' = js ''fourth.txt''"
  by (simp_all add: safeFileName_def illegalChar_def string_eval)

lemma sample_save_new:
  assumes "filesByName folder (safeFileName t 100 @ js ''.txt'') = []"
    and "js_trim (safeFileName t 100 @ js ''.txt'') \<noteq> []"
  shows "saveNewsToDrive True False folder t c
           = (True, folder @ [(safeFileName t 100 @ js ''.txt'', c)])"
proof -
  from assms(2) have "safeFileName t 100 @ js ''.txt'' \<noteq> []"
    by (auto simp: js_trim_def)
  with assms show ?thesis
    by (simp add: saveNewsToDrive_def saveOrUpdateFile_def Let_def)
qed

lemma classifyOnlyOracle_classify:
  "classifyOnlyOracle (AI_CLASSIFICATION_PROMPT @ t) m = Inr (js ''1,finance'')"
  by (simp add: classifyOnlyOracle_def AI_CLASSIFICATION_PROMPT_def)

lemma classifyOnlyOracle_summarize:
  "classifyOnlyOracle (AI_SUMMARIZATION_PROMPT @ b) m = Inl (RequestFailed [])"
  by (simp add: classifyOnlyOracle_def AI_CLASSIFICATION_PROMPT_def AI_SUMMARIZATION_PROMPT_def)

lemma failingSummaryServices_fields:
  "utilsAIDeployed failingSummaryServices = True"
  "askGroq failingSummaryServices s = classifyOnlyOracle"
  "driveDeployed failingSummaryServices = True" "driveThrows failingSummaryServices s = False"
  "extractNewsContent failingSummaryServices = extractNewsContent sampleServices"
  by (simp_all add: failingSummaryServices_def sampleServices_def)

lemma failingSummary_classification:
  "classifyNewsByTitle (utilsAI failingSummaryServices s) t
     = \<lparr>shouldSave = True, category = js ''finance''\<rparr>"
proof -
  have "parseResponse (cleanThinkingTags (js ''1,finance''))
          = Inr \<lparr>shouldSave = True, category = js ''finance''\<rparr>"
    by (simp add: parseResponse_def cleanThinkingTags_def string_eval)
  then show ?thesis
    by (simp add: utilsAI_def failingSummaryServices_fields
          classifyNewsByTitle_reply[of classifyOnlyOracle t "js ''1,finance''",
            OF classifyOnlyOracle_classify])
qed

lemma discardingServices_fields:
  "utilsAIDeployed discardingServices = True"
  "askGroq discardingServices s = replyWith (js ''0,sports'')"
  "extractNewsContent discardingServices = extractNewsContent sampleServices"
  by (simp_all add: discardingServices_def sampleServices_def)

lemma discarding_classification:
  "classifyNewsByTitle (utilsAI discardingServices s) t
     = \<lparr>shouldSave = False, category = js ''sports''\<rparr>"
proof -
  have "parseResponse (cleanThinkingTags (js ''0,sports''))
          = Inr \<lparr>shouldSave = False, category = js ''sports''\<rparr>"
    by (simp add: parseResponse_def cleanThinkingTags_def string_eval)
  moreover have "replyWith (js ''0,sports'') (AI_CLASSIFICATION_PROMPT @ t) aiModel
                   = Inr (js ''0,sports'')"
    by (simp add: replyWith_def)
  ultimately show ?thesis
    by (simp add: utilsAI_def discardingServices_fields
          classifyNewsByTitle_reply[of "replyWith (js ''0,sports'')" t "js ''0,sports''"])
qed

theorem long_kept_body_is_condensed_witness:
  "validTitle (sampleEntry ''fourth'')
   \<and> shouldSave (classifyNewsByTitle (utilsAI sampleServices (1, 3))
                   (title (sampleEntry ''fourth'')))
   \<and> shouldSave (classifyNewsByTitle (utilsAI failingSummaryServices (1, 3))
                   (title (sampleEntry ''fourth'')))
   \<and> extractNewsContent sampleServices (1, 3) (sampleEntry ''fourth'') (sampleFeed ''live'')
       = Inr (replicate 501 0x79)
   \<and> extractNewsContent failingSummaryServices (1, 3) (sampleEntry ''fourth'')
         (sampleFeed ''live'')
       = Inr (replicate 501 0x79)
   \<and> maxContentLength < length (replicate 501 (0x79 :: jschar))
   \<and> condense (utilsAI sampleServices (1, 3)) (replicate 501 0x79) = (sampleSummary, True)
   \<and> processEntry sampleServices (sampleFeed ''live'') 1 (initialRun [])
         (3, sampleEntry ''fourth'')
       = \<lparr>totalProcessed = 1, totalSaved = 1, totalErrors = 0,
          newsFolder =
            [(js ''fourth.txt'',
              formatNewsContent (js ''live'') (js ''finance'') (js ''fourth'')
                sampleSummary True)],
          log = []\<rparr>
   \<and> condense (utilsAI failingSummaryServices (1, 3)) (replicate 501 0x79)
       = (replicate 501 0x79, True)
   \<and> processEntry failingSummaryServices (sampleFeed ''live'') 1 (initialRun [])
         (3, sampleEntry ''fourth'')
       = \<lparr>totalProcessed = 1, totalSaved = 1, totalErrors = 0,
          newsFolder =
            [(js ''fourth.txt'',
              formatNewsContent (js ''live'') (js ''finance'') (js ''fourth'')
                (replicate 501 0x79) True)],
          log = []\<rparr>"
proof -
  have h1: "validTitle (sampleEntry ''fourth'')" by (rule sample_titles)
  have h2: "shouldSave (classifyNewsByTitle (utilsAI sampleServices (1, 3))
                          (title (sampleEntry ''fourth'')))"
    by (simp add: sample_classification)
  have h2': "shouldSave (classifyNewsByTitle (utilsAI failingSummaryServices (1, 3))
                          (title (sampleEntry ''fourth'')))"
    by (simp add: failingSummary_classification)
  have h3: "extractNewsContent sampleServices (1, 3) (sampleEntry ''fourth'') (sampleFeed ''live'')
              = Inr (replicate 501 0x79)"
    by (simp add: sampleServices_def)
  have h3': "extractNewsContent failingSummaryServices (1, 3) (sampleEntry ''fourth'')
               (sampleFeed ''live'') = Inr (replicate 501 0x79)"
    unfolding failingSummaryServices_fields(5) by (rule h3)
  have h4: "maxContentLength < length (replicate 501 (0x79 :: jschar))"
    by (simp add: maxContentLength_def)
  have kne: "js_trim (js ''fourth.txt'') \<noteq> []" by (simp add: string_eval)
  have save: "\<And>c. saveNewsToDrive True False [] (js ''fourth'') c
                 = (True, [(js ''fourth.txt'', c)])"
    using sample_save_new[of "[]" "js ''fourth''"] kne
    by (simp add: sample_file_names filesByName_def)
  have sm: "(case sampleOracle (AI_SUMMARIZATION_PROMPT @ replicate 501 0x79) aiModel of
               Inl e \<Rightarrow> replicate 501 0x79 | Inr rawResponse \<Rightarrow> cleanThinkingTags rawResponse)
             = sampleSummary"
    by (simp add: sampleOracle_summarize sampleSummary_clean)
  note w = long_kept_body_is_condensed [OF h1 h2 h3 h4, of "initialRun []"]
  note w' = long_kept_body_is_condensed [OF h1 h2' h3' h4, of "initialRun []"]
  have c: "condense (utilsAI sampleServices (1, 3)) (replicate 501 0x79)
             = (sampleSummary, True)"
    using w by (simp add: Let_def sampleServices_fields sm)
  have p: "processEntry sampleServices (sampleFeed ''live'') 1 (initialRun [])
             (3, sampleEntry ''fourth'')
           = \<lparr>totalProcessed = 1, totalSaved = 1, totalErrors = 0,
              newsFolder =
                [(js ''fourth.txt'',
                  formatNewsContent (js ''live'') (js ''finance'') (js ''fourth'')
                    sampleSummary True)],
              log = []\<rparr>"
    using w
    by (simp add: Let_def sampleServices_fields sm sample_classification
          minContentLength_def sample_lengths sampleEntry_def sampleFeed_def initialRun_def save)
  have c': "condense (utilsAI failingSummaryServices (1, 3)) (replicate 501 0x79)
              = (replicate 501 0x79, True)"
    using w' by (simp add: Let_def failingSummaryServices_fields classifyOnlyOracle_summarize)
  have p': "processEntry failingSummaryServices (sampleFeed ''live'') 1 (initialRun [])
              (3, sampleEntry ''fourth'')
            = \<lparr>totalProcessed = 1, totalSaved = 1, totalErrors = 0,
               newsFolder =
                 [(js ''fourth.txt'',
                   formatNewsContent (js ''live'') (js ''finance'') (js ''fourth'')
                     (replicate 501 0x79) True)],
               log = []\<rparr>"
    using w'
    by (simp add: Let_def failingSummaryServices_fields classifyOnlyOracle_summarize
          failingSummary_classification minContentLength_def sampleEntry_def sampleFeed_def
          initialRun_def save)
  from h1 h2 h2' h3 h3' h4 c p c' p' show ?thesis by (intro conjI)
qed

theorem short_body_is_skipped_silently_witness:
  "validTitle (sampleEntry ''fifth'')
   \<and> extractNewsContent sampleServices (1, 4) (sampleEntry ''fifth'') (sampleFeed ''live'')
       = Inr (js ''tiny'')
   \<and> extractNewsContent discardingServices (1, 4) (sampleEntry ''fifth'') (sampleFeed ''live'')
       = Inr (js ''tiny'')
   \<and> length (fst (condense (utilsAI sampleServices (1, 4)) (js ''tiny''))) < minContentLength
   \<and> length (fst (condense (utilsAI discardingServices (1, 4)) (js ''tiny'')))
       < minContentLength
   \<and> processEntry sampleServices (sampleFeed ''live'') 1 (initialRun [])
         (4, sampleEntry ''fifth'')
       = \<lparr>totalProcessed = 1, totalSaved = 0, totalErrors = 0, newsFolder = [], log = []\<rparr>
   \<and> processEntry discardingServices (sampleFeed ''live'') 1 (initialRun [])
         (4, sampleEntry ''fifth'')
       = \<lparr>totalProcessed = 1, totalSaved = 0, totalErrors = 0, newsFolder = [],
          log = [SkipNews (js ''fifth'') (js ''sports'')]\<rparr>"
proof -
  have h1: "validTitle (sampleEntry ''fifth'')" by (rule sample_titles)
  have h2: "extractNewsContent sampleServices (1, 4) (sampleEntry ''fifth'') (sampleFeed ''live'')
              = Inr (js ''tiny'')"
    by (simp add: sampleServices_def)
  have h2': "extractNewsContent discardingServices (1, 4) (sampleEntry ''fifth'')
               (sampleFeed ''live'') = Inr (js ''tiny'')"
    unfolding discardingServices_fields(3) by (rule h2)
  have h3: "length (fst (condense (utilsAI sv (1, 4)) (js ''tiny''))) < minContentLength" for sv
    by (simp add: condense_def maxContentLength_def minContentLength_def js_def)
  note w = short_body_is_skipped_silently [OF h1 h2 h3, of "initialRun []"]
  note w' = short_body_is_skipped_silently [OF h1 h2' h3, of "initialRun []"]
  have p: "processEntry sampleServices (sampleFeed ''live'') 1 (initialRun [])
             (4, sampleEntry ''fifth'')
           = \<lparr>totalProcessed = 1, totalSaved = 0, totalErrors = 0, newsFolder = [], log = []\<rparr>"
    using w by (simp add: Let_def sample_classification initialRun_def)
  have p': "processEntry discardingServices (sampleFeed ''live'') 1 (initialRun [])
              (4, sampleEntry ''fifth'')
            = \<lparr>totalProcessed = 1, totalSaved = 0, totalErrors = 0, newsFolder = [],
               log = [SkipNews (js ''fifth'') (js ''sports'')]\<rparr>"
    using w' by (simp add: Let_def discarding_classification initialRun_def sampleEntry_def)
  from h1 h2 h2' h3 p p' show ?thesis by (intro conjI)
qed

lemma sample_limitedEntries:
  "limitedEntriesOf sampleServices 0 (sampleFeed ''dead'') = []"
  "limitedEntriesOf sampleServices (Suc 0) (sampleFeed ''live'') = sampleEntries"
  by (simp_all add: limitedEntriesOf_def sampleServices_def sampleEntries_def maxEntries_def
        sampleFeed_def defaultMaxEntriesPerFeed_def)

lemma sample_feedRaises:
  "feedRaises sampleServices 0 (sampleFeed ''dead'')"
  "\<not> feedRaises sampleServices (Suc 0) (sampleFeed ''live'')"
  by (simp_all add: feedRaises_def sampleServices_def)

lemma sample_entryRaises:
  "entryRaises sampleServices feed (Suc 0, i) e \<longleftrightarrow> validTitle e \<and> i = 0"
  by (simp add: entryRaises_def sample_classification) (simp add: sampleServices_def)

theorem group_run_isolates_failures_witness:
  "[sampleFeed ''dead'', sampleFeed ''live'']
     = filter (\<lambda>feed. processGroup feed = 1) [sampleFeed ''dead'', sampleFeed ''live'']
   \<and> (\<exists>r'. processNewsFeedsByGroup sampleServices [sampleFeed ''dead'', sampleFeed ''live''] 1
              (Some []) = Some r'
           \<and> totalProcessed r' = 4 \<and> totalErrors r' = 2)"
proof -
  have g: "[sampleFeed ''dead'', sampleFeed ''live'']
             = filter (\<lambda>feed. processGroup feed = 1) [sampleFeed ''dead'', sampleFeed ''live'']"
    by (simp add: sampleFeed_def)
  have ne: "[sampleFeed ''dead'', sampleFeed ''live''] \<noteq> []" by simp
  have en: "enumerate 0 [sampleFeed ''dead'', sampleFeed ''live'']
              = [(0, sampleFeed ''dead''), (1, sampleFeed ''live'')]"
    by simp
  have en2: "enumerate 0 sampleEntries
               = [(0, sampleEntry ''first''), (1, sampleEntry []), (2, sampleEntry ''third''),
                  (3, sampleEntry ''fourth''), (4, sampleEntry ''fifth'')]"
    by (simp add: sampleEntries_def)
  from group_run_isolates_failures [OF g ne, of sampleServices "[]"]
  have "\<exists>r'. processNewsFeedsByGroup sampleServices [sampleFeed ''dead'', sampleFeed ''live''] 1
              (Some []) = Some r'
           \<and> totalProcessed r' = 4 \<and> totalErrors r' = 2"
    unfolding en
    by (simp add: sample_limitedEntries sample_feedRaises sample_entryRaises en2 sample_titles)
       (simp add: sampleEntries_def sample_titles eval_nat_numeral)
  with g show ?thesis by (intro conjI)
qed

text \<open>
  The whole sample run: the dead feed and the entry whose extraction raises are counted as
  errors, and the entries after them are processed and saved.
\<close>

lemma sample_run:
  "processNewsFeedsByGroup sampleServices [sampleFeed ''dead'', sampleFeed ''live''] 1 (Some [])
     = Some \<lparr>totalProcessed = 4, totalSaved = 2, totalErrors = 2,
             newsFolder =
               [(js ''third.txt'',
                 formatNewsContent (js ''live'') (js ''finance'') (js ''third'')
                   sampleArticle False),
                (js ''fourth.txt'',
                 formatNewsContent (js ''live'') (js ''finance'') (js ''fourth'')
                   sampleSummary True)],
             log = [ProcessFeed (js ''dead''), FeedError (js ''dead'') (RequestFailed []),
                    ProcessFeed (js ''live''), ScanRange 5 (js ''live''),
                    ItemError (js ''first'') (Exception []), SkipInvalidTitle 2]\<rparr>"
proof -
  have names: "js ''third.txt'' \<noteq> js ''fourth.txt''" "js_trim (js ''third.txt'') \<noteq> []"
    "js_trim (js ''fourth.txt'') \<noteq> []"
    by (simp_all add: string_eval)
  have s3: "\<And>c. saveNewsToDrive True False [] (js ''third'') c = (True, [(js ''third.txt'', c)])"
    using sample_save_new[of "[]" "js ''third''"] names
    by (simp add: sample_file_names filesByName_def)
  have s4: "\<And>c d. saveNewsToDrive True False [(js ''third.txt'', d)] (js ''fourth'') c
              = (True, [(js ''third.txt'', d), (js ''fourth.txt'', c)])"
    using sample_save_new[of "[(js ''third.txt'', d)]" "js ''fourth''" for d] names
    by (simp add: sample_file_names filesByName_def)
  have ex: "extractNewsContent sampleServices s e f =
              (if s = (1, 0) then Inl (Exception [])
               else if s = (1, 3) then Inr (replicate 501 0x79)
               else if s = (1, 4) then Inr (js ''tiny'')
               else Inr sampleArticle)" for s e f
    by (simp add: sampleServices_def)
  have fe: "fetchAndParse sampleServices fi u t =
              (if fi = 0 then Inl (RequestFailed []) else Inr sampleEntries)" for fi u t
    by (simp add: sampleServices_def)
  have tiny: "length (js ''tiny'') = 4" by (simp add: js_def)
  show ?thesis
    by (simp add: processNewsFeedsByGroup_def processFeed_def processEntry_def
          processEntryTry_def condense_def Let_def initialRun_def maxEntries_def
          defaultMaxEntriesPerFeed_def maxContentLength_def minContentLength_def
          sample_classification sample_summary sample_lengths sample_titles
          sampleServices_fields ex fe tiny s3 s4 sampleFeed_def sampleEntries_def
          sampleEntry_def[of "''first''"] sampleEntry_def[of "''third''"]
          sampleEntry_def[of "''fourth''"] sampleEntry_def[of "''fifth''"]
          sampleEntry_def[of "[]"] sample_titles[unfolded sampleEntry_def])
qed

end
